theory Spec2Isabelle
  imports Main "HOL-Library.Multiset"
begin

section \<open>Strings and paths\<close>

text \<open>
  JavaScript strings are modelled as \<^typ>\<open>string\<close>. \<open>toLowerCase\<close> maps the
  ASCII capitals to their small letters and leaves every other character alone. On names
  written in ASCII this is the JavaScript function. On other names the candidate filter still
  agrees with the source: the four supported extensions are ASCII, and none of them contains a
  letter that a non-ASCII character lower-cases to.
\<close>

definition lower_char :: "char \<Rightarrow> char" where
  "lower_char c =
     (case map_of (zip ''ABCDEFGHIJKLMNOPQRSTUVWXYZ'' ''abcdefghijklmnopqrstuvwxyz'') c of
        Some d \<Rightarrow> d
      | None \<Rightarrow> c)"

definition toLowerCase :: "string \<Rightarrow> string" where
  "toLowerCase s = map lower_char s"

text \<open>\<open>Array.prototype.slice\<close> and \<open>String.prototype.slice\<close> with two
  non-negative indices.\<close>

definition slice :: "'a list \<Rightarrow> nat \<Rightarrow> nat \<Rightarrow> 'a list" where
  "slice xs start fin = take (fin - start) (drop start xs)"

text \<open>\<open>String.prototype.startsWith\<close> and \<open>String.prototype.includes\<close>.\<close>

definition startsWith :: "string \<Rightarrow> string \<Rightarrow> bool" where
  "startsWith s p = (take (length p) s = p)"

fun str_includes :: "string \<Rightarrow> string \<Rightarrow> bool" where
  "str_includes [] p = (p = [])"
| "str_includes (c # s) p = (startsWith (c # s) p \<or> str_includes s p)"

text \<open>
  \<open>path.extname\<close> of Node (POSIX flavour): one pass from the last character to the
  first, with the five variables of the library function. The sentinel \<open>-1\<close> of
  \<open>startDot\<close> and \<open>end\<close> is kept, so the variables are integers.
\<close>

record extname_vars =
  startDot :: int
  startPart :: int
  end_idx :: int
  matchedSlash :: bool
  preDotState :: int

fun extname_loop :: "string \<Rightarrow> nat \<Rightarrow> extname_vars \<Rightarrow> extname_vars" where
  "extname_loop path 0 v = v"
| "extname_loop path (Suc i) v =
     (let code = path ! i in
      if code = CHR ''/'' then
        (if \<not> matchedSlash v then v\<lparr>startPart := int i + 1\<rparr>
         else extname_loop path i v)
      else
        (let v1 = (if end_idx v = - 1 then v\<lparr>end_idx := int i + 1, matchedSlash := False\<rparr>
                   else v);
             v2 = (if code = CHR ''.'' then
                     (if startDot v1 = - 1 then v1\<lparr>startDot := int i\<rparr>
                      else if preDotState v1 \<noteq> 1 then v1\<lparr>preDotState := 1\<rparr>
                      else v1)
                   else if startDot v1 \<noteq> - 1 then v1\<lparr>preDotState := - 1\<rparr>
                   else v1)
         in extname_loop path i v2))"

definition extname :: "string \<Rightarrow> string" where
  "extname path =
     (let v = extname_loop path (length path)
                \<lparr>startDot = - 1, startPart = 0, end_idx = - 1, matchedSlash = True,
                 preDotState = 0\<rparr>
      in if startDot v = - 1 \<or> end_idx v = - 1 \<or> preDotState v = 0 \<or>
            (preDotState v = 1 \<and> startDot v = end_idx v - 1 \<and> startDot v = startPart v + 1)
         then []
         else slice path (nat (startDot v)) (nat (end_idx v)))"

text \<open>\<open>path.basename\<close> of Node (POSIX flavour, no suffix argument).\<close>

fun basename_loop :: "string \<Rightarrow> nat \<Rightarrow> nat \<times> int \<times> bool \<Rightarrow> nat \<times> int \<times> bool" where
  "basename_loop path 0 v = v"
| "basename_loop path (Suc i) (start, fin, matched) =
     (if path ! i = CHR ''/'' then
        (if \<not> matched then (i + 1, fin, matched)
         else basename_loop path i (start, fin, matched))
      else if fin = - 1 then basename_loop path i (start, int i + 1, False)
      else basename_loop path i (start, fin, matched))"

definition basename :: "string \<Rightarrow> string" where
  "basename path =
     (case basename_loop path (length path) (0, - 1, True) of
        (start, fin, matched) \<Rightarrow> if fin = - 1 then [] else slice path start (nat fin))"

text \<open>\<open>String(n)\<close> for an integral number \<open>n\<close>: its decimal numeral.\<close>

fun nat_numeral :: "nat \<Rightarrow> string" where
  "nat_numeral n =
     (if n < 10 then [''0123456789'' ! n]
      else nat_numeral (n div 10) @ [''0123456789'' ! (n mod 10)])"

definition js_String :: "int \<Rightarrow> string" where
  "js_String n = (if n < 0 then CHR ''-'' # nat_numeral (nat (- n)) else nat_numeral (nat n))"

section \<open>Options and their resolution\<close>

text \<open>
  The repository holds three versions of the plugin module. The current one (the second module
  of \<open>src/index.ts\<close>, with the \<open>mute\<close> and \<open>concurrency\<close> options) keeps the
  source's names here. The two earlier ones carry a suffix: \<open>_A\<close> is the first module of
  \<open>src/index.ts\<close> (with \<open>videoDir\<close>), \<open>_C\<close> is \<open>unnamed/part_000\<close>.
  An optional field of an interface is an \<open>option\<close>: \<open>None\<close> is \<open>undefined\<close>.
\<close>

record VideoFormatOptions =
  fmt_quality :: "int option"
  fmt_preset :: "string option"
  fmt_mute :: "bool option"

record OptimizeVideosOptions =
  opt_exclude :: "string list option"
  opt_quality :: "int option"
  opt_preset :: "string option"
  opt_mute :: "bool option"
  opt_concurrency :: "nat option"
  opt_videoDir :: "string option"
  opt_mp4 :: "VideoFormatOptions option"
  opt_webm :: "VideoFormatOptions option"
  opt_mov :: "VideoFormatOptions option"
  opt_avi :: "VideoFormatOptions option"

record ResolvedOptions =
  quality :: int
  preset :: string

record ResolvedOptionsMute = ResolvedOptions +
  mute :: bool

definition VIDEO_EXTENSIONS :: "string list" where
  "VIDEO_EXTENSIONS = [''.mp4'', ''.webm'', ''.mov'', ''.avi'']"

text \<open>
  \<open>options[lower] as VideoFormatOptions | undefined\<close>. Only the four extension keys hold
  an object with the fields \<open>quality\<close>, \<open>preset\<close> and \<open>mute\<close>; under any other key
  the options hold nothing, or a number, string, boolean or array, on which the three
  optional-chaining reads give \<open>undefined\<close> as they do on an absent override.
\<close>

definition index_options :: "OptimizeVideosOptions \<Rightarrow> string \<Rightarrow> VideoFormatOptions option" where
  "index_options options key =
     (if key = ''.mp4'' then opt_mp4 options
      else if key = ''.webm'' then opt_webm options
      else if key = ''.mov'' then opt_mov options
      else if key = ''.avi'' then opt_avi options
      else None)"

text \<open>\<open>formatOptions?.field\<close> and \<open>a ?? b\<close>.\<close>

definition opt_chain :: "'r option \<Rightarrow> ('r \<Rightarrow> 'a option) \<Rightarrow> 'a option" where
  "opt_chain obj field = (case obj of None \<Rightarrow> None | Some r \<Rightarrow> field r)"

definition nullish :: "'a option \<Rightarrow> 'a option \<Rightarrow> 'a option" where
  "nullish a b = (case a of Some v \<Rightarrow> Some v | None \<Rightarrow> b)"

text \<open>\<open>a ?? d\<close> where \<open>d\<close> is a literal, never \<open>undefined\<close>.\<close>

definition nullish_or :: "'a option \<Rightarrow> 'a \<Rightarrow> 'a" where
  "nullish_or a d = (case a of Some v \<Rightarrow> v | None \<Rightarrow> d)"

definition getVideoOptions :: "string \<Rightarrow> OptimizeVideosOptions \<Rightarrow> ResolvedOptionsMute" where
  "getVideoOptions ext options =
     (let lower = toLowerCase ext;
          formatOptions = index_options options lower
      in \<lparr>quality = nullish_or (nullish (opt_chain formatOptions fmt_quality)
                                      (opt_quality options)) 18,
          preset = nullish_or (nullish (opt_chain formatOptions fmt_preset)
                                     (opt_preset options)) ''medium'',
          mute = nullish_or (nullish (opt_chain formatOptions fmt_mute)
                                   (opt_mute options)) False\<rparr>)"

definition getVideoOptions_A :: "string \<Rightarrow> OptimizeVideosOptions \<Rightarrow> ResolvedOptions" where
  "getVideoOptions_A ext options =
     (let lower = toLowerCase ext;
          formatOptions = index_options options lower
      in \<lparr>quality = nullish_or (nullish (opt_chain formatOptions fmt_quality)
                                      (opt_quality options)) 18,
          preset = nullish_or (nullish (opt_chain formatOptions fmt_preset)
                                     (opt_preset options)) ''medium''\<rparr>)"

definition getVideoOptions_C :: "string \<Rightarrow> OptimizeVideosOptions \<Rightarrow> ResolvedOptions" where
  "getVideoOptions_C ext options =
     (let lower = toLowerCase ext;
          formatOptions = index_options options lower
      in \<lparr>quality = nullish_or (nullish (opt_chain formatOptions fmt_quality)
                                      (opt_quality options)) 18,
          preset = nullish_or (nullish (opt_chain formatOptions fmt_preset)
                                     (opt_preset options)) ''medium''\<rparr>)"

section \<open>The candidate filter\<close>

text \<open>
  \<open>isVideoFile\<close> is the same text in the three versions. \<open>pattern_excludes\<close> is the
  callback handed to \<open>exclude.some\<close>.
\<close>

definition pattern_excludes :: "string \<Rightarrow> string \<Rightarrow> string \<Rightarrow> bool" where
  "pattern_excludes ext fileName pattern =
     (if startsWith pattern ''.'' then ext = pattern else str_includes fileName pattern)"

definition isVideoFile :: "string \<Rightarrow> string list \<Rightarrow> bool" where
  "isVideoFile fileName exclude =
     (let ext = toLowerCase (extname fileName)
      in if ext \<notin> set VIDEO_EXTENSIONS then False
         else \<not> list_ex (pattern_excludes ext fileName) exclude)"

section \<open>Codec parameters\<close>

record FormatConfig =
  codec :: string
  format :: string
  options :: "string list"

definition getFormatConfig_A :: "string \<Rightarrow> ResolvedOptions \<Rightarrow> FormatConfig" where
  "getFormatConfig_A ext opts =
     (let lower = toLowerCase ext in
      if lower = ''.mp4'' then
        \<lparr>codec = ''libx264'', format = ''mp4'',
         options = [''-crf'', js_String (quality opts), ''-preset'', preset opts,
                    ''-profile:v'', ''high'', ''-level'', ''4.0'', ''-pix_fmt'', ''yuv420p'',
                    ''-movflags'', ''+faststart'', ''-y'']\<rparr>
      else if lower = ''.webm'' then
        (let cpuUsed = (if preset opts = ''slow'' then ''0''
                        else if preset opts = ''medium'' then ''2'' else ''4'')
         in \<lparr>codec = ''libvpx-vp9'', format = ''webm'',
             options = [''-crf'', js_String (quality opts), ''-b:v'', ''0'',
                        ''-pix_fmt'', ''yuv420p'', ''-cpu-used'', cpuUsed, ''-y'']\<rparr>)
      else if lower = ''.mov'' then
        \<lparr>codec = ''libx264'', format = ''mov'',
         options = [''-crf'', js_String (quality opts), ''-preset'', preset opts,
                    ''-pix_fmt'', ''yuv420p'', ''-y'']\<rparr>
      else
        \<lparr>codec = ''libx264'', format = ''avi'',
         options = [''-crf'', js_String (quality opts), ''-preset'', preset opts,
                    ''-pix_fmt'', ''yuv420p'', ''-y'']\<rparr>)"

definition getFormatConfig_C :: "string \<Rightarrow> ResolvedOptions \<Rightarrow> FormatConfig" where
  "getFormatConfig_C ext opts =
     (let lower = toLowerCase ext in
      if lower = ''.mp4'' then
        \<lparr>codec = ''libx264'', format = ''mp4'',
         options = [''-crf'', js_String (quality opts), ''-preset'', preset opts,
                    ''-profile:v'', ''high'', ''-level'', ''4.0'', ''-pix_fmt'', ''yuv420p'',
                    ''-movflags'', ''+faststart'', ''-y'']\<rparr>
      else if lower = ''.webm'' then
        (let cpuUsed = (if preset opts = ''slow'' then ''0''
                        else if preset opts = ''medium'' then ''2'' else ''4'')
         in \<lparr>codec = ''libvpx-vp9'', format = ''webm'',
             options = [''-crf'', js_String (quality opts), ''-b:v'', ''0'',
                        ''-pix_fmt'', ''yuv420p'', ''-cpu-used'', cpuUsed, ''-y'']\<rparr>)
      else if lower = ''.mov'' then
        \<lparr>codec = ''libx264'', format = ''mov'',
         options = [''-crf'', js_String (quality opts), ''-preset'', preset opts,
                    ''-pix_fmt'', ''yuv420p'', ''-y'']\<rparr>
      else
        \<lparr>codec = ''libx264'', format = ''avi'',
         options = [''-crf'', js_String (quality opts), ''-preset'', preset opts,
                    ''-pix_fmt'', ''yuv420p'', ''-y'']\<rparr>)"

text \<open>
  The current version builds \<open>optionsCommon\<close> first, returns early for \<open>.webm\<close>, and
  pushes the three mp4 flags in the last \<open>else\<close>. Its \<open>if (opts.mute)\<close> block is empty.
\<close>

definition getFormatConfig :: "string \<Rightarrow> ResolvedOptionsMute \<Rightarrow> FormatConfig" where
  "getFormatConfig ext opts =
     (let lower = toLowerCase ext;
          optionsCommon = [''-crf'', js_String (quality opts), ''-preset'', preset opts,
                           ''-pix_fmt'', ''yuv420p'', ''-y''];
          codec0 = ''libx264'';
          format0 = ''mp4''
      in if lower = ''.webm'' then
           (let cpuUsed = (if preset opts = ''slow'' then ''0''
                           else if preset opts = ''medium'' then ''2'' else ''4'')
            in \<lparr>codec = ''libvpx-vp9'', format = ''webm'',
                options = [''-crf'', js_String (quality opts), ''-b:v'', ''0'',
                           ''-pix_fmt'', ''yuv420p'', ''-cpu-used'', cpuUsed, ''-y'']\<rparr>)
         else if lower = ''.mov'' then
           \<lparr>codec = codec0, format = ''mov'', options = optionsCommon\<rparr>
         else if lower = ''.avi'' then
           \<lparr>codec = codec0, format = ''avi'', options = optionsCommon\<rparr>
         else
           \<lparr>codec = codec0, format = format0,
            options = optionsCommon @ [''-profile:v'', ''high'', ''-level'', ''4.0'',
                                       ''-movflags'', ''+faststart'']\<rparr>)"

section \<open>The engine command\<close>

text \<open>
  What \<open>optimizeVideo\<close> hands to the external engine through the fluent-ffmpeg builder:
  input, video codec, container format, output options, output path, and whether
  \<open>noAudio()\<close> was called on the command.
\<close>

record ffmpeg_command =
  cmd_input :: string
  cmd_videoCodec :: string
  cmd_noAudio :: bool
  cmd_format :: string
  cmd_outputOptions :: "string list"
  cmd_output :: string

definition optimizeVideo_command ::
  "string \<Rightarrow> string \<Rightarrow> ResolvedOptionsMute \<Rightarrow> ffmpeg_command" where
  "optimizeVideo_command inputPath outputPath opts =
     (let ext = toLowerCase (extname inputPath);
          cfg = getFormatConfig ext opts
      in \<lparr>cmd_input = inputPath, cmd_videoCodec = codec cfg,
          cmd_noAudio = (if mute opts then True else False),
          cmd_format = format cfg, cmd_outputOptions = options cfg,
          cmd_output = outputPath\<rparr>)"

definition optimizeVideo_command_A ::
  "string \<Rightarrow> string \<Rightarrow> ResolvedOptions \<Rightarrow> ffmpeg_command" where
  "optimizeVideo_command_A inputPath outputPath opts =
     (let ext = toLowerCase (extname inputPath);
          cfg = getFormatConfig_A ext opts
      in \<lparr>cmd_input = inputPath, cmd_videoCodec = codec cfg, cmd_noAudio = True,
          cmd_format = format cfg, cmd_outputOptions = options cfg,
          cmd_output = outputPath\<rparr>)"

definition optimizeVideo_command_C ::
  "string \<Rightarrow> string \<Rightarrow> ResolvedOptions \<Rightarrow> ffmpeg_command" where
  "optimizeVideo_command_C inputPath outputPath opts =
     (let ext = toLowerCase (extname inputPath);
          cfg = getFormatConfig_C ext opts
      in \<lparr>cmd_input = inputPath, cmd_videoCodec = codec cfg, cmd_noAudio = True,
          cmd_format = format cfg, cmd_outputOptions = options cfg,
          cmd_output = outputPath\<rparr>)"

section \<open>The directory scanner\<close>

text \<open>
  The scanner sees the file system as a tree: what \<open>readdir\<close> with \<open>withFileTypes\<close>
  returns for a directory is the list of its entries, each with a name and a kind. An entry that
  is neither a directory nor a regular file (a symbolic link, a socket) answers \<open>false\<close> to
  both \<open>isDirectory()\<close> and \<open>isFile()\<close>.
\<close>

datatype dir_tree = File_node | Dir_node "(string \<times> dir_tree) list" | Other_node

datatype js_error = ENOENT string | EISDIR string | ENOTDIR string | FfmpegError string

text \<open>
  \<open>path.join(currentDir, entry.name)\<close> for a normalized directory path (the root of the
  scan comes from \<open>path.resolve\<close>) and an entry name, which holds no separator.
\<close>

definition path_join :: "string \<Rightarrow> string \<Rightarrow> string" where
  "path_join currentDir name =
     (if currentDir = ''/'' then ''/'' @ name else currentDir @ ''/'' @ name)"

text \<open>
  \<open>scanDirectory\<close> on the entries of an existing directory; \<open>videoFiles\<close> is the array
  of the enclosing \<open>findVideoFiles\<close>, which the closure extends by \<open>push\<close>.
\<close>

fun scanDirectory :: "string list \<Rightarrow> string \<Rightarrow> (string \<times> dir_tree) list \<Rightarrow> string list \<Rightarrow> string list" where
  "scanDirectory exclude currentDir [] videoFiles = videoFiles"
| "scanDirectory exclude currentDir ((name, Dir_node sub) # entries) videoFiles =
     (let fullPath = path_join currentDir name;
          videoFiles1 = scanDirectory exclude fullPath sub videoFiles
      in scanDirectory exclude currentDir entries videoFiles1)"
| "scanDirectory exclude currentDir ((name, File_node) # entries) videoFiles =
     (let fullPath = path_join currentDir name;
          videoFiles1 = (if isVideoFile name exclude then videoFiles @ [fullPath] else videoFiles)
      in scanDirectory exclude currentDir entries videoFiles1)"
| "scanDirectory exclude currentDir ((name, Other_node) # entries) videoFiles =
     scanDirectory exclude currentDir entries videoFiles"

text \<open>
  \<open>findVideoFiles\<close>: \<open>at_dir\<close> is what the file system holds at the path \<open>dir\<close>. When
  nothing is there \<open>existsSync\<close> is false and the scan returns at once; on anything but a
  directory \<open>readdir\<close> throws.
\<close>

definition findVideoFiles :: "dir_tree option \<Rightarrow> string \<Rightarrow> string list \<Rightarrow> js_error + string list" where
  "findVideoFiles at_dir dir exclude =
     (case at_dir of
        None \<Rightarrow> Inr []
      | Some (Dir_node entries) \<Rightarrow> Inr (scanDirectory exclude dir entries [])
      | Some _ \<Rightarrow> Inl (ENOTDIR dir))"

section \<open>The batch scheduler\<close>

text \<open>
  The loop \<open>for (let i = 0; i < videoFiles.length; i += concurrency)\<close> that fills
  \<open>chunks\<close>. The concurrency is a natural number here (the data model of the
  specification has it as a positive integer; the slices for a fractional concurrency are not
  modelled); with \<open>concurrency = 0\<close> the loop does not end, which is the value \<open>None\<close>.
\<close>

partial_function (option) chunk_loop ::
  "'a list \<Rightarrow> nat \<Rightarrow> nat \<Rightarrow> 'a list list \<Rightarrow> 'a list list option" where
  "chunk_loop videoFiles concurrency i chunks =
     (if i < length videoFiles
      then chunk_loop videoFiles concurrency (i + concurrency)
             (chunks @ [slice videoFiles i (i + concurrency)])
      else Some chunks)"

declare chunk_loop.simps [code]

section \<open>The file system as the processing units see it\<close>

text \<open>
  A processing unit reads and writes single paths: a path holds nothing, a regular file with its
  contents, or a directory (with the size \<open>stat\<close> reports for it). Every operation is
  recorded in a trace, together with the console lines and the start and the end of every unit.
\<close>

datatype path_entry = Regular string | Folder nat

type_synonym fsys = "string \<rightharpoonup> path_entry"

datatype terminal = Done | Failed js_error

datatype event =
    Invoked string
  | Console_optimizing string
  | Console_success string nat nat
  | Console_error string js_error
  | Fs_stat string
  | Fs_unlink string
  | Fs_readFile string
  | Fs_writeFile string string
  | Ffmpeg_run ffmpeg_command
  | Settled string terminal
  | Escaped string js_error

record world =
  files :: fsys
  trace :: "event list"

definition emit :: "event \<Rightarrow> world \<Rightarrow> world" where
  "emit e w = w\<lparr>trace := trace w @ [e]\<rparr>"

definition existsSync :: "string \<Rightarrow> world \<Rightarrow> bool" where
  "existsSync p w = (files w p \<noteq> None)"

definition stat_size :: "string \<Rightarrow> world \<Rightarrow> (js_error + nat) \<times> world" where
  "stat_size p w =
     (case files w p of
        None \<Rightarrow> (Inl (ENOENT p), emit (Fs_stat p) w)
      | Some (Regular c) \<Rightarrow> (Inr (length c), emit (Fs_stat p) w)
      | Some (Folder n) \<Rightarrow> (Inr n, emit (Fs_stat p) w))"

definition unlink :: "string \<Rightarrow> world \<Rightarrow> (js_error + unit) \<times> world" where
  "unlink p w =
     (case files w p of
        None \<Rightarrow> (Inl (ENOENT p), emit (Fs_unlink p) w)
      | Some (Regular c) \<Rightarrow> (Inr (), emit (Fs_unlink p) (w\<lparr>files := (files w)(p := None)\<rparr>))
      | Some (Folder n) \<Rightarrow> (Inl (EISDIR p), emit (Fs_unlink p) w))"

definition readFile :: "string \<Rightarrow> world \<Rightarrow> (js_error + string) \<times> world" where
  "readFile p w =
     (case files w p of
        None \<Rightarrow> (Inl (ENOENT p), emit (Fs_readFile p) w)
      | Some (Regular c) \<Rightarrow> (Inr c, emit (Fs_readFile p) w)
      | Some (Folder n) \<Rightarrow> (Inl (EISDIR p), emit (Fs_readFile p) w))"

definition writeFile :: "string \<Rightarrow> string \<Rightarrow> world \<Rightarrow> (js_error + unit) \<times> world" where
  "writeFile p c w =
     (case files w p of
        Some (Folder n) \<Rightarrow> (Inl (EISDIR p), emit (Fs_writeFile p c) w)
      | _ \<Rightarrow> (Inr (), emit (Fs_writeFile p c) (w\<lparr>files := (files w)(p \<mapsto> Regular c)\<rparr>)))"

text \<open>
  The external engine is a parameter: for a command and the files it finds, it ends or it
  reports an error, and in both cases it may have written contents to the output path of the
  command (\<open>None\<close>: it wrote nothing). It writes to no other path, it cannot write over a
  directory, and it always comes back.
\<close>

datatype engine_result = Engine_end "string option" | Engine_error string "string option"

type_synonym engine = "ffmpeg_command \<Rightarrow> fsys \<Rightarrow> engine_result"

definition engine_written :: "engine_result \<Rightarrow> string option" where
  "engine_written r = (case r of Engine_end x \<Rightarrow> x | Engine_error m x \<Rightarrow> x)"

definition run_engine :: "engine \<Rightarrow> ffmpeg_command \<Rightarrow> world \<Rightarrow> (js_error + unit) \<times> world" where
  "run_engine eng cmd w =
     (let r = eng cmd (files w);
          fs1 = (case engine_written r of
                   None \<Rightarrow> files w
                 | Some c \<Rightarrow>
                     (case files w (cmd_output cmd) of
                        Some (Folder n) \<Rightarrow> files w
                      | _ \<Rightarrow> (files w)(cmd_output cmd \<mapsto> Regular c)));
          w1 = emit (Ffmpeg_run cmd) (w\<lparr>files := fs1\<rparr>)
      in case r of
           Engine_end x \<Rightarrow> (Inr (), w1)
         | Engine_error m x \<Rightarrow> (Inl (FfmpegError m), w1))"

section \<open>Transcoding and replacing one file\<close>

record OptimizeResult =
  originalSize :: nat
  optimizedSize :: nat

text \<open>
  \<open>optimizeVideo\<close>: the size of the input, the engine run, the size of the output. Each of
  the three can fail, and the failure rejects the promise (\<open>Inl\<close>).
\<close>

definition optimizeVideo ::
  "engine \<Rightarrow> string \<Rightarrow> string \<Rightarrow> ResolvedOptionsMute \<Rightarrow> world \<Rightarrow> (js_error + OptimizeResult) \<times> world" where
  "optimizeVideo eng inputPath outputPath opts w =
     (case stat_size inputPath w of
        (Inl e, w1) \<Rightarrow> (Inl e, w1)
      | (Inr original, w1) \<Rightarrow>
          (case run_engine eng (optimizeVideo_command inputPath outputPath opts) w1 of
             (Inl e, w2) \<Rightarrow> (Inl e, w2)
           | (Inr u, w2) \<Rightarrow>
               (case stat_size outputPath w2 of
                  (Inl e, w3) \<Rightarrow> (Inl e, w3)
                | (Inr optimized, w3) \<Rightarrow>
                    (Inr \<lparr>originalSize = original, optimizedSize = optimized\<rparr>, w3))))"

definition tempOutputPath :: "string \<Rightarrow> string" where
  "tempOutputPath videoFile = videoFile @ ''.tmp'' @ toLowerCase (extname videoFile)"

text \<open>
  \<open>processFile\<close> in three pieces. \<open>processFile_begin\<close> is what runs at the call, before
  the first \<open>await\<close>: the first console line. \<open>processFile_try\<close> is the rest of the
  \<open>try\<close> block and \<open>processFile_catch\<close> the \<open>catch\<close> block; a failure inside the
  \<open>catch\<close> block is caught by nothing and rejects the promise of \<open>processFile\<close>.
\<close>

definition processFile_begin :: "string \<Rightarrow> world \<Rightarrow> world" where
  "processFile_begin videoFile w =
     emit (Console_optimizing (basename videoFile)) (emit (Invoked videoFile) w)"

definition processFile_try ::
  "engine \<Rightarrow> OptimizeVideosOptions \<Rightarrow> string \<Rightarrow> world \<Rightarrow> (js_error + unit) \<times> world" where
  "processFile_try eng opts videoFile w =
     (let fileName = basename videoFile;
          ext = toLowerCase (extname videoFile);
          temp = videoFile @ ''.tmp'' @ ext;
          videoOptions = getVideoOptions ext opts
      in case optimizeVideo eng videoFile temp videoOptions w of
           (Inl e, w1) \<Rightarrow> (Inl e, w1)
         | (Inr r, w1) \<Rightarrow>
             (let w2 = emit (Console_success fileName (originalSize r) (optimizedSize r)) w1
              in case unlink videoFile w2 of
                   (Inl e, w3) \<Rightarrow> (Inl e, w3)
                 | (Inr u, w3) \<Rightarrow>
                     (case readFile temp w3 of
                        (Inl e, w4) \<Rightarrow> (Inl e, w4)
                      | (Inr contents, w4) \<Rightarrow>
                          (case writeFile videoFile contents w4 of
                             (Inl e, w5) \<Rightarrow> (Inl e, w5)
                           | (Inr u, w5) \<Rightarrow> unlink temp w5))))"

definition processFile_catch :: "string \<Rightarrow> js_error \<Rightarrow> world \<Rightarrow> (js_error + unit) \<times> world" where
  "processFile_catch videoFile err w =
     (let fileName = basename videoFile;
          ext = toLowerCase (extname videoFile);
          temp = videoFile @ ''.tmp'' @ ext;
          w1 = emit (Console_error fileName err) w
      in if existsSync temp w1 then unlink temp w1 else (Inr (), w1))"

definition processFile_resume ::
  "engine \<Rightarrow> OptimizeVideosOptions \<Rightarrow> string \<Rightarrow> world \<Rightarrow> (js_error + unit) \<times> world" where
  "processFile_resume eng opts videoFile w =
     (case processFile_try eng opts videoFile w of
        (Inr u, w1) \<Rightarrow> (Inr (), emit (Settled videoFile Done) w1)
      | (Inl err, w1) \<Rightarrow>
          (case processFile_catch videoFile err w1 of
             (Inr u, w2) \<Rightarrow> (Inr (), emit (Settled videoFile (Failed err)) w2)
           | (Inl err2, w2) \<Rightarrow> (Inl err2, emit (Escaped videoFile err2) w2)))"

definition processFile ::
  "engine \<Rightarrow> OptimizeVideosOptions \<Rightarrow> string \<Rightarrow> world \<Rightarrow> (js_error + unit) \<times> world" where
  "processFile eng opts videoFile w =
     processFile_resume eng opts videoFile (processFile_begin videoFile w)"

section \<open>Groups in sequence\<close>

text \<open>
  \<open>await Promise.all(chunk.map((file) => processFile(file)))\<close>: every unit of the chunk is
  begun, in the order of the chunk; then the units come back one after the other, in an order
  that the code does not fix (\<open>completion chunk\<close>, a rearrangement of the chunk). The work of
  one unit after its first \<open>await\<close> is taken as one step. When a unit rejects,
  \<open>Promise.all\<close> rejects, the \<open>for\<close> loop of \<open>closeBundle\<close> is left by the exception,
  and what the other units of the chunk still do is not followed.
\<close>

fun await_units ::
  "engine \<Rightarrow> OptimizeVideosOptions \<Rightarrow> string list \<Rightarrow> world \<Rightarrow> (js_error + unit) \<times> world" where
  "await_units eng opts [] w = (Inr (), w)"
| "await_units eng opts (videoFile # rest) w =
     (case processFile_resume eng opts videoFile w of
        (Inl e, w1) \<Rightarrow> (Inl e, w1)
      | (Inr u, w1) \<Rightarrow> await_units eng opts rest w1)"

definition promise_all ::
  "engine \<Rightarrow> OptimizeVideosOptions \<Rightarrow> (string list \<Rightarrow> string list) \<Rightarrow> string list \<Rightarrow> world
     \<Rightarrow> (js_error + unit) \<times> world" where
  "promise_all eng opts completion chunk w =
     await_units eng opts (completion chunk) (foldl (\<lambda>w1 f. processFile_begin f w1) w chunk)"

fun run_chunks ::
  "engine \<Rightarrow> OptimizeVideosOptions \<Rightarrow> (string list \<Rightarrow> string list) \<Rightarrow> string list list \<Rightarrow> world
     \<Rightarrow> (js_error + unit) \<times> world" where
  "run_chunks eng opts completion [] w = (Inr (), w)"
| "run_chunks eng opts completion (chunk # rest) w =
     (case promise_all eng opts completion chunk w of
        (Inl e, w1) \<Rightarrow> (Inl e, w1)
      | (Inr u, w1) \<Rightarrow> run_chunks eng opts completion rest w1)"

text \<open>
  The part of \<open>closeBundle\<close> after the scan, for a non-empty list of candidates: the chunks
  are built, then run. \<open>None\<close> is a loop that does not end.
\<close>

definition concurrency_of :: "OptimizeVideosOptions \<Rightarrow> nat" where
  \<comment> \<open>\<open>const { exclude = [], concurrency = 4 } = options\<close>\<close>
  "concurrency_of opts = (case opt_concurrency opts of None \<Rightarrow> 4 | Some c \<Rightarrow> c)"

definition closeBundle_chunks ::
  "engine \<Rightarrow> OptimizeVideosOptions \<Rightarrow> (string list \<Rightarrow> string list) \<Rightarrow> string list \<Rightarrow> world
     \<Rightarrow> ((js_error + unit) \<times> world) option" where
  "closeBundle_chunks eng opts completion videoFiles w =
     (let concurrency = concurrency_of opts
      in case chunk_loop videoFiles concurrency 0 [] of
           None \<Rightarrow> None
         | Some chunks \<Rightarrow> Some (run_chunks eng opts completion chunks w))"

section \<open>Notions of the specification\<close>

text \<open>
  The precedence of the specification: of the values listed from the strongest to the weakest,
  the first one that is present; the default when none is.
\<close>

fun first_present :: "'a option list \<Rightarrow> 'a \<Rightarrow> 'a" where
  "first_present [] d = d"
| "first_present (Some v # vs) d = v"
| "first_present (None # vs) d = first_present vs d"

text \<open>
  The per-extension overrides of the options, one for each of the four supported extensions,
  and a field of an override that may be absent itself.
\<close>

definition override_table :: "OptimizeVideosOptions \<Rightarrow> (string \<times> VideoFormatOptions option) list" where
  "override_table opts =
     [(''.mp4'', opt_mp4 opts), (''.webm'', opt_webm opts), (''.mov'', opt_mov opts),
      (''.avi'', opt_avi opts)]"

definition override_field :: "VideoFormatOptions option \<Rightarrow> (VideoFormatOptions \<Rightarrow> 'a option) \<Rightarrow> 'a option" where
  "override_field ov field = (case ov of None \<Rightarrow> None | Some r \<Rightarrow> field r)"

text \<open>
  The \<open>.webm\<close> configuration as the specification words it: the VP9 codec in constant-quality
  mode, and the speed parameter of each preset.
\<close>

definition cpu_used_of :: "string \<Rightarrow> string" where
  "cpu_used_of p =
     (if p = ''slow'' then ''0'' else if p = ''medium'' then ''2''
      else if p = ''fast'' then ''4'' else ''4'')"

definition vp9_config :: "int \<Rightarrow> string \<Rightarrow> FormatConfig" where
  "vp9_config q p =
     \<lparr>codec = ''libvpx-vp9'', format = ''webm'',
      options = [''-crf'', js_String q, ''-b:v'', ''0'', ''-pix_fmt'', ''yuv420p'',
                 ''-cpu-used'', cpu_used_of p, ''-y'']\<rparr>"

text \<open>The flags of the generic H.264 configuration: CRF, preset, pixel format, overwrite.\<close>

definition h264_flags :: "int \<Rightarrow> string \<Rightarrow> string list" where
  "h264_flags q p = [''-crf'', js_String q, ''-preset'', p, ''-pix_fmt'', ''yuv420p'', ''-y'']"

text \<open>
  The files of a tree, by their position: \<open>has_file entries names\<close> holds when following the
  directory names of \<open>names\<close> from \<open>entries\<close> downwards ends at a regular file named by the
  last of them. The recursion is on the path, at any depth.
\<close>

fun has_file :: "(string \<times> dir_tree) list \<Rightarrow> string list \<Rightarrow> bool" where
  "has_file entries [] = False"
| "has_file entries [name] = ((name, File_node) \<in> set entries)"
| "has_file entries (name # rest) =
     list_ex (\<lambda>(n, e). n = name \<and> (case e of Dir_node sub \<Rightarrow> has_file sub rest | _ \<Rightarrow> False))
       entries"

text \<open>
  The candidates below a directory, listed without the accumulator of the scanner: those among
  its own entries and those below each of its subdirectories.
\<close>

fun candidates_below :: "string list \<Rightarrow> string \<Rightarrow> (string \<times> dir_tree) list \<Rightarrow> string list" where
  "candidates_below exclude dir [] = []"
| "candidates_below exclude dir ((name, Dir_node sub) # entries) =
     candidates_below exclude (path_join dir name) sub @ candidates_below exclude dir entries"
| "candidates_below exclude dir ((name, File_node) # entries) =
     (if isVideoFile name exclude then [path_join dir name] else [])
       @ candidates_below exclude dir entries"
| "candidates_below exclude dir ((name, Other_node) # entries) =
     candidates_below exclude dir entries"

text \<open>A stretch of a trace in which no unit is started.\<close>

definition quiet :: "event list \<Rightarrow> bool" where
  "quiet evs = (\<forall>f. Invoked f \<notin> set evs)"

text \<open>A path that holds a directory.\<close>

definition folder_at :: "fsys \<Rightarrow> string \<Rightarrow> bool" where
  "folder_at fs p = (case fs p of Some (Folder n) \<Rightarrow> True | _ \<Rightarrow> False)"

section \<open>Inputs of the examples\<close>

text \<open>
  The options objects \<open>{}\<close>, \<open>{ quality: 20, ".mp4": { quality: 18 } }\<close>,
  \<open>{ concurrency: 1 }\<close> and \<open>{ mute: true }\<close>.
\<close>

definition no_options :: OptimizeVideosOptions where
  "no_options =
     \<lparr>opt_exclude = None, opt_quality = None, opt_preset = None, opt_mute = None,
      opt_concurrency = None, opt_videoDir = None, opt_mp4 = None, opt_webm = None,
      opt_mov = None, opt_avi = None\<rparr>"

definition example_options :: OptimizeVideosOptions where
  "example_options =
     no_options\<lparr>opt_quality := Some 20,
                opt_mp4 := Some \<lparr>fmt_quality = Some 18, fmt_preset = None, fmt_mute = None\<rparr>\<rparr>"

definition one_at_a_time :: OptimizeVideosOptions where
  "one_at_a_time = no_options\<lparr>opt_concurrency := Some 1\<rparr>"

definition mute_all :: OptimizeVideosOptions where
  "mute_all = no_options\<lparr>opt_mute := Some True\<rparr>"

text \<open>
  The tree of the scenario: \<open>/out/a.mp4\<close>, \<open>/out/b.webm\<close> and \<open>/out/sub/c.gif\<close>; the
  three clips of the exclusion scenario; and a deeper tree, with a symbolic link and an
  upper-case extension.
\<close>

definition scenario_tree :: "(string \<times> dir_tree) list" where
  "scenario_tree =
     [(''a.mp4'', File_node), (''b.webm'', File_node), (''sub'', Dir_node [(''c.gif'', File_node)])]"

definition intro_tree :: "(string \<times> dir_tree) list" where
  "intro_tree =
     [(''intro_clip.mp4'', File_node), (''clip_intro_reversed.mp4'', File_node),
      (''clip.mp4'', File_node)]"

definition deep_tree :: "(string \<times> dir_tree) list" where
  "deep_tree =
     [(''a.mp4'', File_node),
      (''sub'', Dir_node [(''c.gif'', File_node), (''d.MOV'', File_node),
                          (''deep'', Dir_node [(''e.avi'', File_node), (''intro.mp4'', File_node)])]),
      (''link.mp4'', Other_node)]"

text \<open>
  A build output with two videos; the same with a directory at the temp path of the first
  video; an engine that writes two bytes and ends.
\<close>

definition dist_files :: fsys where
  "dist_files = [''/dist/a.mp4'' \<mapsto> Regular ''AAAA'', ''/dist/b.mp4'' \<mapsto> Regular ''BBBB'']"

definition dist_files_with_folder :: fsys where
  "dist_files_with_folder = dist_files(''/dist/a.mp4.tmp.mp4'' \<mapsto> Folder 4096)"

definition shrinking_engine :: engine where
  "shrinking_engine cmd fs = Engine_end (Some ''xy'')"

section \<open>Option precedence\<close>

lemma index_options_table:
  "map_of (override_table opts) key = Some ov \<Longrightarrow> index_options opts key = ov"
  by (auto simp: override_table_def index_options_def split: if_splits)

lemma first_present_nullish:
  "nullish_or (nullish a b) d = first_present [a, b] d"
  by (cases a; cases b) (simp_all add: nullish_def nullish_or_def)

text \<open>
  C3. For each of the four supported extensions (in any letter case) the resolved quality,
  preset and mute are, each on its own, the field of the override of that extension when it is
  present, else the global field when it is present, else the default 18, "medium", false. With
  the options \<open>{ quality: 20, ".mp4": { quality: 18 } }\<close> an \<open>.mp4\<close> file resolves quality
  18 and a \<open>.webm\<close> file quality 20.
\<close>

theorem getVideoOptions_precedence:
  "(\<forall>ext opts ov. map_of (override_table opts) (toLowerCase ext) = Some ov \<longrightarrow>
      quality (getVideoOptions ext opts)
        = first_present [override_field ov fmt_quality, opt_quality opts] 18 \<and>
      preset (getVideoOptions ext opts)
        = first_present [override_field ov fmt_preset, opt_preset opts] ''medium'' \<and>
      mute (getVideoOptions ext opts)
        = first_present [override_field ov fmt_mute, opt_mute opts] False)
   \<and> quality (getVideoOptions (extname ''a.mp4'') example_options) = 18
   \<and> quality (getVideoOptions (extname ''b.webm'') example_options) = 20"
proof -
  have general: "quality (getVideoOptions ext opts)
        = first_present [override_field ov fmt_quality, opt_quality opts] 18 \<and>
      preset (getVideoOptions ext opts)
        = first_present [override_field ov fmt_preset, opt_preset opts] ''medium'' \<and>
      mute (getVideoOptions ext opts)
        = first_present [override_field ov fmt_mute, opt_mute opts] False"
    if "map_of (override_table opts) (toLowerCase ext) = Some ov" for ext opts ov
  proof -
    from that have "index_options opts (toLowerCase ext) = ov"
      by (rule index_options_table)
    then show ?thesis
      by (simp add: getVideoOptions_def Let_def first_present_nullish opt_chain_def
          override_field_def)
  qed
  have mp4: "quality (getVideoOptions (extname ''a.mp4'') example_options) = 18"
    by code_simp
  have webm: "quality (getVideoOptions (extname ''b.webm'') example_options) = 20"
    by code_simp
  from general mp4 webm show ?thesis by blast
qed

theorem getVideoOptions_precedence_witness:
  "map_of (override_table example_options) (toLowerCase ''.MP4'')
     = Some (Some \<lparr>fmt_quality = Some 18, fmt_preset = None, fmt_mute = None\<rparr>)
   \<and> quality (getVideoOptions ''.MP4'' example_options) = 18
   \<and> preset (getVideoOptions ''.MP4'' example_options) = ''medium''
   \<and> mute (getVideoOptions ''.MP4'' example_options) = False"
proof -
  have key: "map_of (override_table example_options) (toLowerCase ''.MP4'')
     = Some (Some \<lparr>fmt_quality = Some 18, fmt_preset = None, fmt_mute = None\<rparr>)"
    by code_simp
  have fields: "opt_quality example_options = Some 20" "opt_preset example_options = None"
    "opt_mute example_options = None"
    by (simp_all add: example_options_def no_options_def)
  from getVideoOptions_precedence key
  have "quality (getVideoOptions ''.MP4'' example_options)
        = first_present [override_field (Some \<lparr>fmt_quality = Some 18, fmt_preset = None, fmt_mute = None\<rparr>) fmt_quality, opt_quality example_options] 18 \<and>
      preset (getVideoOptions ''.MP4'' example_options)
        = first_present [override_field (Some \<lparr>fmt_quality = Some 18, fmt_preset = None, fmt_mute = None\<rparr>) fmt_preset, opt_preset example_options] ''medium'' \<and>
      mute (getVideoOptions ''.MP4'' example_options)
        = first_present [override_field (Some \<lparr>fmt_quality = Some 18, fmt_preset = None, fmt_mute = None\<rparr>) fmt_mute, opt_mute example_options] False"
    by blast
  with key show ?thesis
    by (simp add: override_field_def fields)
qed

section \<open>The exclusion rule\<close>

lemma startsWith_dot: "startsWith pattern ''.'' \<longleftrightarrow> (\<exists>rest. pattern = CHR ''.'' # rest)"
  by (cases pattern) (auto simp: startsWith_def)

lemma startsWith_iff: "startsWith s p \<longleftrightarrow> (\<exists>post. s = p @ post)"
proof
  assume "startsWith s p"
  then have "s = p @ drop (length p) s"
    by (metis append_take_drop_id startsWith_def)
  then show "\<exists>post. s = p @ post" ..
next
  assume "\<exists>post. s = p @ post"
  then show "startsWith s p" by (auto simp: startsWith_def)
qed

lemma str_includes_iff: "str_includes s p \<longleftrightarrow> (\<exists>pre post. s = pre @ p @ post)"
proof (induction s)
  case Nil
  then show ?case by auto
next
  case (Cons c s)
  show ?case
  proof
    assume "str_includes (c # s) p"
    then consider "startsWith (c # s) p" | "str_includes s p" by auto
    then show "\<exists>pre post. c # s = pre @ p @ post"
    proof cases
      case 1
      then obtain post where "c # s = p @ post" by (auto simp: startsWith_iff)
      then have "c # s = [] @ p @ post" by simp
      then show ?thesis by blast
    next
      case 2
      with Cons.IH obtain pre post where "s = pre @ p @ post" by blast
      then have "c # s = (c # pre) @ p @ post" by simp
      then show ?thesis by blast
    qed
  next
    assume "\<exists>pre post. c # s = pre @ p @ post"
    then obtain pre post where eq: "c # s = pre @ p @ post" by blast
    show "str_includes (c # s) p"
    proof (cases pre)
      case Nil
      with eq have "startsWith (c # s) p" by (auto simp: startsWith_iff)
      then show ?thesis by simp
    next
      case (Cons d pre')
      with eq have "s = pre' @ p @ post" by simp
      with Cons.IH have "str_includes s p" by blast
      then show ?thesis by simp
    qed
  qed
qed

lemma lower_char_idem: "lower_char (lower_char c) = lower_char c"
  by (simp add: lower_char_def)

lemma toLowerCase_idem: "toLowerCase (toLowerCase s) = toLowerCase s"
  by (simp add: toLowerCase_def lower_char_idem)

text \<open>
  C4, as the claim states it, fails: the pattern \<open>.MP4\<close> equals the extension of \<open>a.mp4\<close>
  when letter case is ignored, yet it does not exclude the file, which stays a candidate.
\<close>

theorem exclude_upper_case_pattern_counterexample:
  "startsWith ''.MP4'' ''.''
   \<and> toLowerCase ''.MP4'' = toLowerCase (extname ''a.mp4'')
   \<and> \<not> pattern_excludes (toLowerCase (extname ''a.mp4'')) ''a.mp4'' ''.MP4''
   \<and> isVideoFile ''a.mp4'' [''.MP4'']"
  by code_simp

text \<open>
  C4, amended. The letter case of the file's extension is ignored, the letter case of the
  pattern is not: a pattern that starts with \<open>.\<close> excludes the file iff the pattern is
  the lower-cased extension of the file, that is iff the pattern is written in lower case and
  equals the extension when letter case is ignored. Any other pattern excludes the file iff it
  occurs, as it is written, inside the name handed to \<open>isVideoFile\<close>; a name is a candidate
  iff its lower-cased extension is one of the four and no pattern excludes it; and the scanner
  hands the name of the directory entry to \<open>isVideoFile\<close>, not the full path.
\<close>

theorem isVideoFile_exclusion_rule:
  "(\<forall>rest. pattern_excludes (toLowerCase (extname fileName)) fileName (CHR ''.'' # rest) \<longleftrightarrow>
       toLowerCase (CHR ''.'' # rest) = CHR ''.'' # rest \<and>
       toLowerCase (CHR ''.'' # rest) = toLowerCase (extname fileName))
   \<and> (\<forall>pattern. (\<nexists>rest. pattern = CHR ''.'' # rest) \<longrightarrow>
        (pattern_excludes (toLowerCase (extname fileName)) fileName pattern \<longleftrightarrow>
           (\<exists>pre post. fileName = pre @ pattern @ post)))
   \<and> (isVideoFile fileName exclude \<longleftrightarrow>
        toLowerCase (extname fileName) \<in> set VIDEO_EXTENSIONS \<and>
        (\<forall>pattern \<in> set exclude.
           \<not> pattern_excludes (toLowerCase (extname fileName)) fileName pattern))
   \<and> scanDirectory exclude dir [(fileName, File_node)] []
        = (if isVideoFile fileName exclude then [path_join dir fileName] else [])"
proof -
  let ?ext = "toLowerCase (extname fileName)"
  have dot: "pattern_excludes ?ext fileName (CHR ''.'' # rest) \<longleftrightarrow>
       toLowerCase (CHR ''.'' # rest) = CHR ''.'' # rest \<and>
       toLowerCase (CHR ''.'' # rest) = ?ext" for rest
  proof -
    have "pattern_excludes ?ext fileName (CHR ''.'' # rest) \<longleftrightarrow> ?ext = CHR ''.'' # rest"
      by (simp add: pattern_excludes_def startsWith_def)
    also have "\<dots> \<longleftrightarrow> toLowerCase (CHR ''.'' # rest) = CHR ''.'' # rest \<and>
       toLowerCase (CHR ''.'' # rest) = ?ext"
      by (metis toLowerCase_idem)
    finally show ?thesis .
  qed
  have other: "pattern_excludes ?ext fileName pattern \<longleftrightarrow>
       (\<exists>pre post. fileName = pre @ pattern @ post)"
    if "\<nexists>rest. pattern = CHR ''.'' # rest" for pattern
    using that by (simp add: pattern_excludes_def startsWith_dot str_includes_iff)
  have cand: "isVideoFile fileName exclude \<longleftrightarrow>
        ?ext \<in> set VIDEO_EXTENSIONS \<and>
        (\<forall>pattern \<in> set exclude. \<not> pattern_excludes ?ext fileName pattern)"
    by (simp add: isVideoFile_def Let_def list_ex_iff)
  have scan: "scanDirectory exclude dir [(fileName, File_node)] []
        = (if isVideoFile fileName exclude then [path_join dir fileName] else [])"
    by (simp add: Let_def)
  from dot other cand scan show ?thesis by blast
qed

theorem isVideoFile_exclusion_rule_witness:
  "(\<nexists>rest. ''intro'' = CHR ''.'' # rest)
   \<and> pattern_excludes (toLowerCase (extname ''clip_intro_reversed.mp4''))
        ''clip_intro_reversed.mp4'' ''intro''
   \<and> toLowerCase (extname ''clip_intro_reversed.mp4'') \<in> set VIDEO_EXTENSIONS
   \<and> \<not> isVideoFile ''clip_intro_reversed.mp4'' [''intro'']"
proof -
  let ?f = "''clip_intro_reversed.mp4''"
  have nodot: "\<nexists>rest. ''intro'' = CHR ''.'' # rest" by simp
  have "?f = ''clip_'' @ ''intro'' @ ''_reversed.mp4''" by simp
  then have sub: "\<exists>pre post. ?f = pre @ ''intro'' @ post" by blast
  have ext: "toLowerCase (extname ?f) \<in> set VIDEO_EXTENSIONS" by code_simp
  from isVideoFile_exclusion_rule [of ?f "[''intro'']" "''/out''"] nodot sub
  have ex: "pattern_excludes (toLowerCase (extname ?f)) ?f ''intro''" by blast
  from isVideoFile_exclusion_rule [of ?f "[''intro'']" "''/out''"] ex
  have "\<not> isVideoFile ?f [''intro'']" by simp
  with nodot ex ext show ?thesis by blast
qed

section \<open>Codec parameters of the three versions\<close>

lemma VIDEO_EXTENSIONS_cases:
  "e \<in> set VIDEO_EXTENSIONS \<longleftrightarrow> e = ''.mp4'' \<or> e = ''.webm'' \<or> e = ''.mov'' \<or> e = ''.avi''"
  by (auto simp: VIDEO_EXTENSIONS_def)

text \<open>
  C8. For an extension that lower-cases to \<open>.webm\<close> and any resolved quality and preset, the
  configuration is the VP9 codec in the container \<open>webm\<close> with the flags \<open>-crf\<close> (the
  quality), \<open>-b:v 0\<close>, \<open>-pix_fmt yuv420p\<close>, \<open>-cpu-used\<close> (0 for the preset "slow", 2 for
  "medium", 4 for "fast" and for any other preset) and \<open>-y\<close>; so in the current version and
  in the two earlier ones.
\<close>

theorem getFormatConfig_webm:
  assumes "toLowerCase ext = ''.webm''"
  shows "getFormatConfig ext \<lparr>quality = q, preset = p, mute = m\<rparr> = vp9_config q p
         \<and> getFormatConfig_A ext \<lparr>quality = q, preset = p\<rparr> = vp9_config q p
         \<and> getFormatConfig_C ext \<lparr>quality = q, preset = p\<rparr> = vp9_config q p
         \<and> cpu_used_of ''slow'' = ''0'' \<and> cpu_used_of ''medium'' = ''2''
         \<and> cpu_used_of ''fast'' = ''4''
         \<and> (p \<notin> {''slow'', ''medium'', ''fast''} \<longrightarrow> cpu_used_of p = ''4'')"
  using assms
  by (simp add: getFormatConfig_def getFormatConfig_A_def getFormatConfig_C_def vp9_config_def
      cpu_used_of_def Let_def)

theorem getFormatConfig_webm_witness:
  "toLowerCase ''.WebM'' = ''.webm''
   \<and> getFormatConfig ''.WebM'' \<lparr>quality = 30, preset = ''veryslow'', mute = False\<rparr>
       = \<lparr>codec = ''libvpx-vp9'', format = ''webm'',
          options = [''-crf'', ''30'', ''-b:v'', ''0'', ''-pix_fmt'', ''yuv420p'',
                     ''-cpu-used'', ''4'', ''-y'']\<rparr>"
proof -
  have low: "toLowerCase ''.WebM'' = ''.webm''" by code_simp
  have num: "js_String 30 = ''30''" by code_simp
  from getFormatConfig_webm [OF low, of 30 "''veryslow''" False]
  have "getFormatConfig ''.WebM'' \<lparr>quality = 30, preset = ''veryslow'', mute = False\<rparr>
          = vp9_config 30 ''veryslow''"
    by blast
  with low show ?thesis
    by (simp add: vp9_config_def cpu_used_of_def num)
qed

text \<open>
  C9, as the claim states it, fails for the current version: on the unsupported extension
  \<open>.mkv\<close> it answers with the container \<open>mp4\<close>, not \<open>avi\<close>, and with the three extra
  flags of \<open>.mp4\<close>.
\<close>

theorem getFormatConfig_fallback_counterexample:
  "toLowerCase ''.mkv'' \<notin> set VIDEO_EXTENSIONS
   \<and> getFormatConfig ''.mkv'' \<lparr>quality = 18, preset = ''medium'', mute = False\<rparr>
       = \<lparr>codec = ''libx264'', format = ''mp4'',
          options = [''-crf'', ''18'', ''-preset'', ''medium'', ''-pix_fmt'', ''yuv420p'', ''-y'',
                     ''-profile:v'', ''high'', ''-level'', ''4.0'', ''-movflags'',
                     ''+faststart'']\<rparr>
   \<and> format (getFormatConfig ''.mkv'' \<lparr>quality = 18, preset = ''medium'', mute = False\<rparr>)
       \<noteq> ''avi''"
  by code_simp

text \<open>
  C9, amended. The resolver is a total function in the three versions. For an extension that
  is, in lower case, none of the four supported ones, the two earlier versions return the
  generic H.264 configuration of \<open>.avi\<close> (container \<open>avi\<close>, codec \<open>libx264\<close>, the flags
  for CRF, preset and pixel format, and \<open>-y\<close>); the current version treats it like \<open>.mp4\<close>:
  container \<open>mp4\<close>, codec \<open>libx264\<close>, the same flags followed by the profile, level and
  fast-start flags.
\<close>

theorem getFormatConfig_fallback:
  assumes "toLowerCase ext \<notin> set VIDEO_EXTENSIONS"
  shows "getFormatConfig_A ext \<lparr>quality = q, preset = p\<rparr>
           = \<lparr>codec = ''libx264'', format = ''avi'', options = h264_flags q p\<rparr>
         \<and> getFormatConfig_C ext \<lparr>quality = q, preset = p\<rparr>
           = \<lparr>codec = ''libx264'', format = ''avi'', options = h264_flags q p\<rparr>
         \<and> getFormatConfig ext \<lparr>quality = q, preset = p, mute = m\<rparr>
           = \<lparr>codec = ''libx264'', format = ''mp4'',
              options = h264_flags q p @ [''-profile:v'', ''high'', ''-level'', ''4.0'',
                                          ''-movflags'', ''+faststart'']\<rparr>"
  using assms
  by (simp add: VIDEO_EXTENSIONS_cases getFormatConfig_def getFormatConfig_A_def
      getFormatConfig_C_def h264_flags_def Let_def)

theorem getFormatConfig_fallback_witness:
  "toLowerCase ''.MKV'' \<notin> set VIDEO_EXTENSIONS
   \<and> getFormatConfig_A ''.MKV'' \<lparr>quality = 23, preset = ''fast''\<rparr>
       = \<lparr>codec = ''libx264'', format = ''avi'',
          options = [''-crf'', ''23'', ''-preset'', ''fast'', ''-pix_fmt'', ''yuv420p'', ''-y'']\<rparr>
   \<and> format (getFormatConfig ''.MKV'' \<lparr>quality = 23, preset = ''fast'', mute = True\<rparr>) = ''mp4''"
proof -
  have out: "toLowerCase ''.MKV'' \<notin> set VIDEO_EXTENSIONS" by code_simp
  have num: "js_String 23 = ''23''" by code_simp
  from getFormatConfig_fallback [OF out, of 23 "''fast''" True] out show ?thesis
    by (simp add: h264_flags_def num)
qed

text \<open>
  C10. For each supported extension (in any letter case) and every resolved quality and
  preset, the three versions of \<open>getFormatConfig\<close> return the same codec, the same container
  format and the same flags up to their order.
\<close>

theorem getFormatConfig_versions_agree:
  assumes "toLowerCase ext \<in> set VIDEO_EXTENSIONS"
  shows "codec (getFormatConfig ext \<lparr>quality = q, preset = p, mute = m\<rparr>)
           = codec (getFormatConfig_A ext \<lparr>quality = q, preset = p\<rparr>)
         \<and> codec (getFormatConfig_C ext \<lparr>quality = q, preset = p\<rparr>)
           = codec (getFormatConfig_A ext \<lparr>quality = q, preset = p\<rparr>)
         \<and> format (getFormatConfig ext \<lparr>quality = q, preset = p, mute = m\<rparr>)
           = format (getFormatConfig_A ext \<lparr>quality = q, preset = p\<rparr>)
         \<and> format (getFormatConfig_C ext \<lparr>quality = q, preset = p\<rparr>)
           = format (getFormatConfig_A ext \<lparr>quality = q, preset = p\<rparr>)
         \<and> mset (options (getFormatConfig ext \<lparr>quality = q, preset = p, mute = m\<rparr>))
           = mset (options (getFormatConfig_A ext \<lparr>quality = q, preset = p\<rparr>))
         \<and> mset (options (getFormatConfig_C ext \<lparr>quality = q, preset = p\<rparr>))
           = mset (options (getFormatConfig_A ext \<lparr>quality = q, preset = p\<rparr>))"
  using assms
  by (auto simp: VIDEO_EXTENSIONS_cases getFormatConfig_def getFormatConfig_A_def
      getFormatConfig_C_def Let_def)

theorem getFormatConfig_versions_agree_witness:
  "toLowerCase ''.MP4'' \<in> set VIDEO_EXTENSIONS
   \<and> mset (options (getFormatConfig ''.MP4'' \<lparr>quality = 18, preset = ''medium'', mute = True\<rparr>))
       = mset (options (getFormatConfig_A ''.MP4'' \<lparr>quality = 18, preset = ''medium''\<rparr>))
   \<and> options (getFormatConfig ''.MP4'' \<lparr>quality = 18, preset = ''medium'', mute = True\<rparr>)
       \<noteq> options (getFormatConfig_A ''.MP4'' \<lparr>quality = 18, preset = ''medium''\<rparr>)"
proof -
  have sup: "toLowerCase ''.MP4'' \<in> set VIDEO_EXTENSIONS" by code_simp
  have differ: "options (getFormatConfig ''.MP4'' \<lparr>quality = 18, preset = ''medium'', mute = True\<rparr>)
       \<noteq> options (getFormatConfig_A ''.MP4'' \<lparr>quality = 18, preset = ''medium''\<rparr>)"
    by code_simp
  from getFormatConfig_versions_agree [OF sup, of 18 "''medium''" True] sup differ
  show ?thesis by blast
qed

section \<open>The scanner finds the candidates of the whole tree\<close>

lemma scanDirectory_candidates_below:
  "scanDirectory exclude dir entries videoFiles
     = videoFiles @ candidates_below exclude dir entries"
  by (induction exclude dir entries videoFiles rule: scanDirectory.induct)
     (simp_all add: Let_def)

lemma has_file_Cons:
  "has_file (entry # entries) names \<longleftrightarrow> has_file [entry] names \<or> has_file entries names"
  by (induction entries names rule: has_file.induct) auto

lemma has_file_single_File: "has_file [(name, File_node)] names \<longleftrightarrow> names = [name]"
  by (induction "[(name, File_node)]" names rule: has_file.induct) auto

lemma has_file_single_Other: "\<not> has_file [(name, Other_node)] names"
  by (induction "[(name, Other_node)]" names rule: has_file.induct) auto

lemma has_file_single_Dir:
  "has_file [(name, Dir_node sub)] names \<longleftrightarrow>
     (\<exists>rest. names = name # rest \<and> has_file sub rest)"
  by (induction "[(name, Dir_node sub)]" names rule: has_file.induct) auto

lemma has_file_Nil: "\<not> has_file [] names"
  by (cases "([] :: (string \<times> dir_tree) list, names)" rule: has_file.cases) auto

lemma has_file_nonempty: "has_file entries names \<Longrightarrow> names \<noteq> []"
  by auto

lemma set_candidates_below:
  "set (candidates_below exclude dir entries)
     = {foldl path_join dir names | names.
          has_file entries names \<and> isVideoFile (last names) exclude}"
proof (induction exclude dir entries rule: candidates_below.induct)
  case (1 exclude dir)
  then show ?case by (simp add: has_file_Nil)
next
  case (2 exclude dir name sub entries)
  have "{foldl path_join dir names | names.
          has_file ((name, Dir_node sub) # entries) names \<and> isVideoFile (last names) exclude}
        = {foldl path_join (path_join dir name) rest | rest.
             has_file sub rest \<and> isVideoFile (last rest) exclude}
          \<union> {foldl path_join dir names | names.
             has_file entries names \<and> isVideoFile (last names) exclude}"
    (is "?L = ?A \<union> ?B")
  proof (intro set_eqI iffI)
    fix p assume "p \<in> ?L"
    then obtain names where p: "p = foldl path_join dir names"
      and h: "has_file ((name, Dir_node sub) # entries) names"
      and v: "isVideoFile (last names) exclude"
      by blast
    from h consider "has_file [(name, Dir_node sub)] names" | "has_file entries names"
      using has_file_Cons by blast
    then show "p \<in> ?A \<union> ?B"
    proof cases
      case 1
      then obtain rest where r: "names = name # rest" "has_file sub rest"
        by (auto simp: has_file_single_Dir)
      then have "rest \<noteq> []" by auto
      with r v p have "p = foldl path_join (path_join dir name) rest"
        "isVideoFile (last rest) exclude"
        by simp_all
      with r show ?thesis by blast
    next
      case 2
      with p v show ?thesis by blast
    qed
  next
    fix p assume "p \<in> ?A \<union> ?B"
    then consider "p \<in> ?A" | "p \<in> ?B" by blast
    then show "p \<in> ?L"
    proof cases
      case 1
      then obtain rest where r: "p = foldl path_join (path_join dir name) rest"
        "has_file sub rest" "isVideoFile (last rest) exclude"
        by blast
      then have ne: "rest \<noteq> []" by auto
      have "has_file ((name, Dir_node sub) # entries) (name # rest)"
        using r(2) has_file_Cons has_file_single_Dir by blast
      moreover have "p = foldl path_join dir (name # rest)" using r(1) by simp
      moreover have "isVideoFile (last (name # rest)) exclude" using r(3) ne by simp
      ultimately show ?thesis by blast
    next
      case 2
      then obtain names where "p = foldl path_join dir names" "has_file entries names"
        "isVideoFile (last names) exclude"
        by blast
      then show ?thesis using has_file_Cons by blast
    qed
  qed
  with 2 show ?case by simp
next
  case (3 exclude dir name entries)
  have "{foldl path_join dir names | names.
          has_file ((name, File_node) # entries) names \<and> isVideoFile (last names) exclude}
        = (if isVideoFile name exclude then {path_join dir name} else {})
          \<union> {foldl path_join dir names | names.
             has_file entries names \<and> isVideoFile (last names) exclude}"
    (is "?L = ?A \<union> ?B")
  proof (intro set_eqI iffI)
    fix p assume "p \<in> ?L"
    then obtain names where p: "p = foldl path_join dir names"
      and h: "has_file ((name, File_node) # entries) names"
      and v: "isVideoFile (last names) exclude"
      by blast
    from h consider "names = [name]" | "has_file entries names"
      using has_file_Cons has_file_single_File by blast
    then show "p \<in> ?A \<union> ?B"
    proof cases
      case 1
      with p v show ?thesis by simp
    next
      case 2
      with p v show ?thesis by blast
    qed
  next
    fix p assume "p \<in> ?A \<union> ?B"
    then consider "p \<in> ?A" | "p \<in> ?B" by blast
    then show "p \<in> ?L"
    proof cases
      case 1
      then have v: "isVideoFile name exclude" and p: "p = path_join dir name"
        by (auto split: if_splits)
      have "has_file ((name, File_node) # entries) [name]" by simp
      moreover have "p = foldl path_join dir [name]" using p by simp
      moreover have "isVideoFile (last [name]) exclude" using v by simp
      ultimately show ?thesis by blast
    next
      case 2
      then obtain names where "p = foldl path_join dir names" "has_file entries names"
        "isVideoFile (last names) exclude"
        by blast
      then show ?thesis using has_file_Cons by blast
    qed
  qed
  with 3 show ?case by auto
next
  case (4 exclude dir name entries)
  have "has_file ((name, Other_node) # entries) names \<longleftrightarrow> has_file entries names" for names
    using has_file_Cons has_file_single_Other by blast
  with 4 show ?case by simp
qed

lemma isVideoFile_by_rule:
  "isVideoFile name exclude \<longleftrightarrow>
     toLowerCase (extname name) \<in> set VIDEO_EXTENSIONS \<and>
     (\<forall>pattern \<in> set exclude.
        (\<forall>rest. pattern = CHR ''.'' # rest \<longrightarrow> pattern \<noteq> toLowerCase (extname name)) \<and>
        ((\<nexists>rest. pattern = CHR ''.'' # rest) \<longrightarrow>
           (\<nexists>pre post. name = pre @ pattern @ post)))"
proof -
  have one: "\<not> pattern_excludes (toLowerCase (extname name)) name pattern \<longleftrightarrow>
        (\<forall>rest. pattern = CHR ''.'' # rest \<longrightarrow> pattern \<noteq> toLowerCase (extname name)) \<and>
        ((\<nexists>rest. pattern = CHR ''.'' # rest) \<longrightarrow>
           (\<nexists>pre post. name = pre @ pattern @ post))"
    for pattern
  proof (cases "\<exists>rest. pattern = CHR ''.'' # rest")
    case True
    then have "startsWith pattern ''.''" by (simp add: startsWith_dot)
    then have "\<not> pattern_excludes (toLowerCase (extname name)) name pattern \<longleftrightarrow>
        pattern \<noteq> toLowerCase (extname name)"
      by (auto simp: pattern_excludes_def)
    with True show ?thesis by blast
  next
    case False
    then have "\<not> startsWith pattern ''.''" by (simp add: startsWith_dot)
    then have "\<not> pattern_excludes (toLowerCase (extname name)) name pattern \<longleftrightarrow>
        (\<nexists>pre post. name = pre @ pattern @ post)"
      by (simp add: pattern_excludes_def str_includes_iff)
    with False show ?thesis by blast
  qed
  have "isVideoFile name exclude \<longleftrightarrow>
     toLowerCase (extname name) \<in> set VIDEO_EXTENSIONS \<and>
     (\<forall>pattern \<in> set exclude. \<not> pattern_excludes (toLowerCase (extname name)) name pattern)"
    by (simp add: isVideoFile_def Let_def list_ex_iff)
  then show ?thesis by (simp only: one)
qed

text \<open>
  C5, as the claim states it, fails, on the input that refutes the exclusion rule of the
  specification: the pattern \<open>.MP4\<close> starts with a dot and equals the extension of
  \<open>/out/a.mp4\<close> when letter case is ignored, so by the rule of the specification the file
  matches an exclude pattern; the scan returns it all the same.
\<close>

theorem findVideoFiles_upper_case_pattern_counterexample:
  "has_file [(''a.mp4'', File_node)] [''a.mp4'']
   \<and> toLowerCase ''.MP4'' = toLowerCase (extname ''a.mp4'')
   \<and> findVideoFiles (Some (Dir_node [(''a.mp4'', File_node)])) ''/out'' [''.MP4'']
       = Inr [''/out/a.mp4'']"
  by code_simp

text \<open>
  C5, amended. When nothing exists at the root the scan returns the empty list and no error.
  On a directory it returns a list whose elements are exactly the paths of the regular files
  of the tree, at any depth, whose extension is, letter case ignored, one of \<open>.mp4\<close>,
  \<open>.webm\<close>, \<open>.mov\<close>, \<open>.avi\<close> and which match no exclude pattern, where a pattern that
  starts with a dot matches iff it is the lower-cased extension of the file (a pattern with an
  upper-case letter matches no file) and any other pattern matches iff it occurs, as it is
  written, inside the base name of the file. In the first scenario the candidates are
  \<open>/out/a.mp4\<close> and \<open>/out/b.webm\<close>; in the second, with the pattern \<open>intro\<close>, only
  \<open>/out/clip.mp4\<close> remains.
\<close>

theorem findVideoFiles_exact:
  "findVideoFiles None dir exclude = Inr []
   \<and> (\<exists>videoFiles. findVideoFiles (Some (Dir_node entries)) dir exclude = Inr videoFiles
        \<and> set videoFiles
            = {foldl path_join dir names | names.
                 has_file entries names
                 \<and> toLowerCase (extname (last names)) \<in> set VIDEO_EXTENSIONS
                 \<and> (\<forall>pattern \<in> set exclude.
                      (\<forall>rest. pattern = CHR ''.'' # rest \<longrightarrow>
                         pattern \<noteq> toLowerCase (extname (last names))) \<and>
                      ((\<nexists>rest. pattern = CHR ''.'' # rest) \<longrightarrow>
                         (\<nexists>pre post. last names = pre @ pattern @ post)))})
   \<and> findVideoFiles (Some (Dir_node scenario_tree)) ''/out'' []
       = Inr [''/out/a.mp4'', ''/out/b.webm'']
   \<and> findVideoFiles (Some (Dir_node intro_tree)) ''/out'' [''intro''] = Inr [''/out/clip.mp4'']"
proof -
  have absent: "findVideoFiles None dir exclude = Inr []"
    by (simp add: findVideoFiles_def)
  have found: "findVideoFiles (Some (Dir_node entries)) dir exclude
      = Inr (candidates_below exclude dir entries)"
    by (simp add: findVideoFiles_def scanDirectory_candidates_below)
  have exact: "set (candidates_below exclude dir entries)
      = {foldl path_join dir names | names.
                 has_file entries names
                 \<and> toLowerCase (extname (last names)) \<in> set VIDEO_EXTENSIONS
                 \<and> (\<forall>pattern \<in> set exclude.
                      (\<forall>rest. pattern = CHR ''.'' # rest \<longrightarrow>
                         pattern \<noteq> toLowerCase (extname (last names))) \<and>
                      ((\<nexists>rest. pattern = CHR ''.'' # rest) \<longrightarrow>
                         (\<nexists>pre post. last names = pre @ pattern @ post)))}"
    unfolding set_candidates_below isVideoFile_by_rule by (rule refl)
  have scenario: "findVideoFiles (Some (Dir_node scenario_tree)) ''/out'' []
      = Inr [''/out/a.mp4'', ''/out/b.webm'']"
    by code_simp
  have intro: "findVideoFiles (Some (Dir_node intro_tree)) ''/out'' [''intro'']
      = Inr [''/out/clip.mp4'']"
    by code_simp
  show ?thesis
    using absent found exact scenario intro
    by (intro conjI exI [of _ "candidates_below exclude dir entries"])
qed

theorem findVideoFiles_exact_witness:
  "has_file deep_tree [''sub'', ''deep'', ''e.avi'']
   \<and> findVideoFiles (Some (Dir_node deep_tree)) ''/out'' [''intro'', ''.mov'', ''.AVI'']
       = Inr [''/out/a.mp4'', ''/out/sub/deep/e.avi'']
   \<and> (\<exists>videoFiles. findVideoFiles (Some (Dir_node deep_tree)) ''/out''
                        [''intro'', ''.mov'', ''.AVI''] = Inr videoFiles
        \<and> ''/out/sub/deep/e.avi'' \<in> set videoFiles)"
proof -
  let ?names = "[''sub'', ''deep'', ''e.avi'']"
  let ?exclude = "[''intro'', ''.mov'', ''.AVI'']"
  have there: "has_file deep_tree ?names" by code_simp
  have all: "findVideoFiles (Some (Dir_node deep_tree)) ''/out'' ?exclude
      = Inr [''/out/a.mp4'', ''/out/sub/deep/e.avi'']"
    by code_simp
  have ext: "toLowerCase (extname (last ?names)) \<in> set VIDEO_EXTENSIONS" by code_simp
  have lower: "toLowerCase (extname ''e.avi'') = ''.avi''" by code_simp
  have name: "last ?names = ''e.avi''" by simp
  have "\<not> str_includes ''e.avi'' ''intro''" by code_simp
  then have no_intro: "\<nexists>pre post. ''e.avi'' = pre @ ''intro'' @ post"
    unfolding str_includes_iff .
  have keep: "\<forall>pattern \<in> set ?exclude.
      (\<forall>rest. pattern = CHR ''.'' # rest \<longrightarrow> pattern \<noteq> toLowerCase (extname (last ?names))) \<and>
      ((\<nexists>rest. pattern = CHR ''.'' # rest) \<longrightarrow>
         (\<nexists>pre post. last ?names = pre @ pattern @ post))"
    unfolding name lower using no_intro by simp
  have path: "foldl path_join ''/out'' ?names = ''/out/sub/deep/e.avi''" by code_simp
  from findVideoFiles_exact [of "''/out''" ?exclude deep_tree]
  obtain videoFiles where
    res: "findVideoFiles (Some (Dir_node deep_tree)) ''/out'' ?exclude = Inr videoFiles"
    and exact: "set videoFiles
            = {foldl path_join ''/out'' names | names.
                 has_file deep_tree names
                 \<and> toLowerCase (extname (last names)) \<in> set VIDEO_EXTENSIONS
                 \<and> (\<forall>pattern \<in> set ?exclude.
                      (\<forall>rest. pattern = CHR ''.'' # rest \<longrightarrow>
                         pattern \<noteq> toLowerCase (extname (last names))) \<and>
                      ((\<nexists>rest. pattern = CHR ''.'' # rest) \<longrightarrow>
                         (\<nexists>pre post. last names = pre @ pattern @ post)))}"
    by (elim exE conjE)
  have "''/out/sub/deep/e.avi'' \<in> set videoFiles"
    unfolding exact mem_Collect_eq
    by (intro exI [of _ ?names] conjI path [symmetric] there ext keep)
  with there all res show ?thesis by (intro conjI exI [of _ videoFiles])
qed

section \<open>The chunks of the scheduler\<close>

lemma ceil_div_less: "0 < c \<Longrightarrow> j < (n + c - 1) div c \<longleftrightarrow> j * c < (n::nat)"
proof -
  assume c: "0 < c"
  have "j < (n + c - 1) div c \<longleftrightarrow> Suc j \<le> (n + c - 1) div c" by auto
  also have "\<dots> \<longleftrightarrow> Suc j * c \<le> n + c - 1"
    using c by (simp add: less_eq_div_iff_mult_less_eq)
  also have "\<dots> \<longleftrightarrow> j * c < n" using c by auto
  finally show ?thesis .
qed

lemma chunk_loop_from:
  assumes c: "0 < c"
  shows "j \<le> (length xs + c - 1) div c \<Longrightarrow>
     chunk_loop xs c (j * c) acc
       = Some (acc @ map (\<lambda>k. slice xs (k * c) (k * c + c)) [j..<(length xs + c - 1) div c])"
proof (induction "(length xs + c - 1) div c - j" arbitrary: j acc)
  case 0
  then have "j = (length xs + c - 1) div c" by simp
  then have "\<not> j * c < length xs" using ceil_div_less [OF c, of j "length xs"] by simp
  then show ?case using \<open>j = _\<close> by (subst chunk_loop.simps) simp
next
  case (Suc d)
  then have lt: "j < (length xs + c - 1) div c" by simp
  then have run: "j * c < length xs" using ceil_div_less [OF c, of j "length xs"] by simp
  have "chunk_loop xs c (j * c) acc
      = chunk_loop xs c (Suc j * c) (acc @ [slice xs (j * c) (j * c + c)])"
    using run by (subst chunk_loop.simps) (simp add: add.commute)
  also have "\<dots> = Some ((acc @ [slice xs (j * c) (j * c + c)])
      @ map (\<lambda>k. slice xs (k * c) (k * c + c)) [Suc j..<(length xs + c - 1) div c])"
    using Suc lt by (intro Suc.hyps(1)) simp_all
  also have "\<dots> = Some (acc @ map (\<lambda>k. slice xs (k * c) (k * c + c)) [j..<(length xs + c - 1) div c])"
    using lt by (simp add: upt_conv_Cons)
  finally show ?case .
qed

lemma concat_slices:
  "concat (map (\<lambda>k. slice xs (k * c) (k * c + c)) [0..<m]) = take (m * c) xs"
proof (induction m)
  case 0
  then show ?case by simp
next
  case (Suc m)
  have "take (Suc m * c) xs = take (m * c + c) xs" by (simp add: add.commute)
  also have "\<dots> = take (m * c) xs @ take c (drop (m * c) xs)" by (rule take_add)
  finally show ?case using Suc by (simp add: slice_def)
qed

lemma length_slice: "length (slice xs a b) = min (b - a) (length xs - a)"
  by (simp add: slice_def)

lemma chunk_loop_partition:
  assumes c: "0 < c"
  shows "\<exists>chunks. chunk_loop xs c 0 [] = Some chunks
     \<and> chunks = map (\<lambda>k. slice xs (k * c) (k * c + c)) [0..<(length xs + c - 1) div c]
     \<and> concat chunks = xs
     \<and> length chunks = (length xs + c - 1) div c
     \<and> (\<forall>k < length chunks. 0 < length (chunks ! k) \<and> length (chunks ! k) \<le> c
            \<and> (k + 1 < length chunks \<longrightarrow> length (chunks ! k) = c))"
proof -
  let ?m = "(length xs + c - 1) div c"
  let ?chunks = "map (\<lambda>k. slice xs (k * c) (k * c + c)) [0..<?m]"
  have run: "chunk_loop xs c 0 [] = Some ?chunks"
    using chunk_loop_from [OF c, of 0 xs "[]"] by simp
  have "\<not> ?m < ?m" by simp
  then have "\<not> ?m * c < length xs" using ceil_div_less [OF c, of ?m "length xs"] by simp
  then have cat: "concat ?chunks = xs" by (simp add: concat_slices)
  have sizes: "0 < length (?chunks ! k) \<and> length (?chunks ! k) \<le> c
            \<and> (k + 1 < length ?chunks \<longrightarrow> length (?chunks ! k) = c)" if "k < length ?chunks" for k
  proof -
    from that have k: "k < ?m" by simp
    then have inside: "k * c < length xs" using ceil_div_less [OF c, of k "length xs"] by simp
    have len: "length (?chunks ! k) = min c (length xs - k * c)"
      using k by (simp add: length_slice)
    have full: "length (?chunks ! k) = c" if "k + 1 < length ?chunks"
    proof -
      from that have "Suc k < ?m" by simp
      then have "Suc k * c < length xs" using ceil_div_less [OF c, of "Suc k" "length xs"] by simp
      then show ?thesis using len by simp
    qed
    from len inside c full show ?thesis by auto
  qed
  from run cat sizes show ?thesis by auto
qed


section \<open>Traces of the processing units\<close>

lemma trace_emit [simp]: "trace (emit e w) = trace w @ [e]"
  by (simp add: emit_def)

lemma files_emit [simp]: "files (emit e w) = files w"
  by (simp add: emit_def)

lemma stat_size_effect:
  "stat_size p w = (r, w1) \<Longrightarrow> trace w1 = trace w @ [Fs_stat p] \<and> files w1 = files w"
  by (auto simp: stat_size_def split: option.splits path_entry.splits)

lemma unlink_trace: "unlink p w = (r, w1) \<Longrightarrow> trace w1 = trace w @ [Fs_unlink p]"
  by (auto simp: unlink_def split: option.splits path_entry.splits)

lemma readFile_effect:
  "readFile p w = (r, w1) \<Longrightarrow> trace w1 = trace w @ [Fs_readFile p] \<and> files w1 = files w"
  by (auto simp: readFile_def split: option.splits path_entry.splits)

lemma writeFile_trace: "writeFile p c w = (r, w1) \<Longrightarrow> trace w1 = trace w @ [Fs_writeFile p c]"
  by (auto simp: writeFile_def split: option.splits path_entry.splits)

lemma run_engine_trace: "run_engine eng cmd w = (r, w1) \<Longrightarrow> trace w1 = trace w @ [Ffmpeg_run cmd]"
  by (auto simp: run_engine_def Let_def split: engine_result.splits)

lemma quiet_simps [simp]:
  "quiet []" "quiet (evs @ evs') \<longleftrightarrow> quiet evs \<and> quiet evs'"
  "quiet (e # evs) \<longleftrightarrow> (\<forall>f. e \<noteq> Invoked f) \<and> quiet evs"
  by (auto simp: quiet_def)

lemma optimizeVideo_trace:
  assumes "optimizeVideo eng i out vo w = (r, w1)"
  shows "\<exists>evs. trace w1 = trace w @ evs \<and> quiet evs"
  using assms
  by (auto simp: optimizeVideo_def split: prod.splits sum.splits
      dest!: stat_size_effect run_engine_trace)

lemma processFile_try_trace:
  assumes "processFile_try eng opts f w = (r, w1)"
  shows "\<exists>evs. trace w1 = trace w @ evs \<and> quiet evs"
  using assms
  by (auto simp: processFile_try_def Let_def split: prod.splits sum.splits
      dest!: optimizeVideo_trace unlink_trace readFile_effect writeFile_trace)

lemma processFile_catch_trace:
  assumes "processFile_catch f e w = (r, w1)"
  shows "\<exists>evs. trace w1 = trace w @ evs \<and> quiet evs"
  using assms
  by (auto simp: processFile_catch_def Let_def split: if_splits dest!: unlink_trace)

lemma processFile_resume_trace:
  assumes "processFile_resume eng opts f w = (r, w1)"
  shows "\<exists>evs. trace w1 = trace w @ evs \<and> quiet evs \<and>
           (r = Inr () \<longrightarrow> (\<exists>t. Settled f t \<in> set evs))"
  using assms
  by (auto simp: processFile_resume_def split: prod.splits sum.splits
      dest!: processFile_try_trace processFile_catch_trace)

lemma await_units_trace:
  "await_units eng opts fs w = (r, w1) \<Longrightarrow>
     \<exists>evs. trace w1 = trace w @ evs \<and> quiet evs \<and>
       (r = Inr () \<longrightarrow> (\<forall>f \<in> set fs. \<exists>t. Settled f t \<in> set evs))"
proof (induction fs arbitrary: w)
  case Nil
  then show ?case by auto
next
  case (Cons f fs)
  obtain r0 w0 where first: "processFile_resume eng opts f w = (r0, w0)"
    by (cases "processFile_resume eng opts f w")
  from processFile_resume_trace [OF first] obtain evs0 where
    evs0: "trace w0 = trace w @ evs0" "quiet evs0"
      "r0 = Inr () \<longrightarrow> (\<exists>t. Settled f t \<in> set evs0)"
    by blast
  show ?case
  proof (cases r0)
    case (Inl e)
    with Cons.prems first have "r = Inl e" "w1 = w0" by simp_all
    with evs0 show ?thesis by auto
  next
    case (Inr u)
    with Cons.prems first have rest: "await_units eng opts fs w0 = (r, w1)" by simp
    from Cons.IH [OF rest] obtain evs1 where
      evs1: "trace w1 = trace w0 @ evs1" "quiet evs1"
        "r = Inr () \<longrightarrow> (\<forall>g \<in> set fs. \<exists>t. Settled g t \<in> set evs1)"
      by blast
    from Inr evs0(3) obtain t where "Settled f t \<in> set evs0" by auto
    with evs0 evs1 have "trace w1 = trace w @ (evs0 @ evs1) \<and> quiet (evs0 @ evs1) \<and>
       (r = Inr () \<longrightarrow> (\<forall>g \<in> set (f # fs). \<exists>t. Settled g t \<in> set (evs0 @ evs1)))"
      by auto
    then show ?thesis by blast
  qed
qed

lemma begin_all_trace:
  "\<exists>evs. trace (foldl (\<lambda>w1 f. processFile_begin f w1) w chunk) = trace w @ evs \<and>
     (\<forall>g. Invoked g \<in> set evs \<longleftrightarrow> g \<in> set chunk) \<and> (\<forall>g t. Settled g t \<notin> set evs)"
proof (induction chunk arbitrary: w)
  case Nil
  then show ?case by simp
next
  case (Cons f chunk)
  from Cons.IH [of "processFile_begin f w"] obtain evs where
    "trace (foldl (\<lambda>w1 f. processFile_begin f w1) (processFile_begin f w) chunk)
       = trace (processFile_begin f w) @ evs"
    "\<forall>g. Invoked g \<in> set evs \<longleftrightarrow> g \<in> set chunk" "\<forall>g t. Settled g t \<notin> set evs"
    by blast
  then have "trace (foldl (\<lambda>w1 f. processFile_begin f w1) w (f # chunk))
       = trace w @ ([Invoked f, Console_optimizing (basename f)] @ evs) \<and>
     (\<forall>g. Invoked g \<in> set ([Invoked f, Console_optimizing (basename f)] @ evs)
        \<longleftrightarrow> g \<in> set (f # chunk)) \<and>
     (\<forall>g t. Settled g t \<notin> set ([Invoked f, Console_optimizing (basename f)] @ evs))"
    by (auto simp: processFile_begin_def)
  then show ?case by blast
qed

lemma promise_all_trace:
  assumes "promise_all eng opts completion chunk w = (r, w1)"
  shows "\<exists>evs. trace w1 = trace w @ evs \<and>
           (\<forall>g. Invoked g \<in> set evs \<longrightarrow> g \<in> set chunk) \<and>
           (r = Inr () \<longrightarrow> (\<forall>f \<in> set (completion chunk). \<exists>t. Settled f t \<in> set evs))"
proof -
  let ?w0 = "foldl (\<lambda>w1 f. processFile_begin f w1) w chunk"
  from begin_all_trace [of w chunk] obtain evs0 where
    evs0: "trace ?w0 = trace w @ evs0" "\<forall>g. Invoked g \<in> set evs0 \<longleftrightarrow> g \<in> set chunk"
    by blast
  from assms have "await_units eng opts (completion chunk) ?w0 = (r, w1)"
    by (simp add: promise_all_def)
  from await_units_trace [OF this] obtain evs1 where
    evs1: "trace w1 = trace ?w0 @ evs1" "quiet evs1"
      "r = Inr () \<longrightarrow> (\<forall>f \<in> set (completion chunk). \<exists>t. Settled f t \<in> set evs1)"
    by blast
  from evs0 evs1 have "trace w1 = trace w @ (evs0 @ evs1) \<and>
           (\<forall>g. Invoked g \<in> set (evs0 @ evs1) \<longrightarrow> g \<in> set chunk) \<and>
           (r = Inr () \<longrightarrow> (\<forall>f \<in> set (completion chunk). \<exists>t. Settled f t \<in> set (evs0 @ evs1)))"
    by (auto simp: quiet_def)
  then show ?thesis by blast
qed




lemma example_paths:
  "toLowerCase (extname ''/dist/a.mp4'') = ''.mp4''" "basename ''/dist/a.mp4'' = ''a.mp4''"
  "toLowerCase (extname ''/dist/b.mp4'') = ''.mp4''" "basename ''/dist/b.mp4'' = ''b.mp4''"
  by code_simp+

lemma one_by_one:
  "chunk_loop [''/dist/a.mp4'', ''/dist/b.mp4''] (Suc 0) 0 []
     = Some [[''/dist/a.mp4''], [''/dist/b.mp4'']]"
  by code_simp


section \<open>Replacing the original\<close>

lemma cmd_output_optimizeVideo_command:
  "cmd_output (optimizeVideo_command i out vo) = out"
  by (simp add: optimizeVideo_command_def Let_def)





section \<open>A failure while cleaning up\<close>

text \<open>
  C2 says that every failure of a unit in its resolve, transcode or replace stage is caught at
  the boundary of the unit (the file is marked failed, its error recorded, its temp file
  removed if still present) and that no such failure keeps another candidate from reaching its
  own terminal state or aborts the batch. The code misses one case. The \<open>catch\<close> block of
  \<open>processFile\<close> awaits \<open>unlink(tempOutputPath)\<close> under the only guard
  \<open>existsSync(tempOutputPath)\<close>, and nothing catches a failure of that call. Take
  \<open>/dist/a.mp4\<close> and \<open>/dist/b.mp4\<close> with concurrency 1, and a directory at
  \<open>/dist/a.mp4.tmp.mp4\<close>. Whatever the engine does, the first unit fails (the engine
  reports an error, or \<open>readFile\<close> fails on the directory), \<open>existsSync\<close> is true for
  the directory, \<open>unlink\<close> fails on it, the promise of \<open>processFile\<close> rejects and with
  it \<open>Promise.all\<close> and the loop over the chunks: \<open>/dist/b.mp4\<close> is never started and
  reaches no terminal state.
\<close>

theorem cleanup_failure_aborts_batch:
  "\<exists>w1. closeBundle_chunks eng one_at_a_time id
          [''/dist/a.mp4'', ''/dist/b.mp4''] \<lparr>files = dist_files_with_folder, trace = []\<rparr>
        = Some (Inl (EISDIR ''/dist/a.mp4.tmp.mp4''), w1)
      \<and> Invoked ''/dist/b.mp4'' \<notin> set (trace w1)
      \<and> (\<forall>t. Settled ''/dist/b.mp4'' t \<notin> set (trace w1))
      \<and> files w1 ''/dist/b.mp4'' = Some (Regular ''BBBB'')"
proof -
  let ?cmd = "optimizeVideo_command ''/dist/a.mp4'' ''/dist/a.mp4.tmp.mp4''
      (getVideoOptions ''.mp4'' one_at_a_time)"
  have c: "concurrency_of one_at_a_time = Suc 0"
    by (simp add: concurrency_of_def one_at_a_time_def)
  show ?thesis
    by (cases "eng ?cmd dist_files_with_folder")
      (simp_all add: closeBundle_chunks_def c one_by_one promise_all_def processFile_begin_def
        processFile_resume_def processFile_try_def processFile_catch_def optimizeVideo_def
        example_paths Let_def stat_size_def unlink_def readFile_def writeFile_def run_engine_def
        existsSync_def emit_def engine_written_def cmd_output_optimizeVideo_command
        dist_files_with_folder_def dist_files_def split: option.splits)
qed

section \<open>Where the isolation of failures holds\<close>

text \<open>
  What C2 claims does hold when no temp path of a candidate holds a directory: no operation of
  a unit creates or removes a directory, so the \<open>unlink\<close> of the \<open>catch\<close> block then
  always succeeds. Every unit ends in \<open>Done\<close> or \<open>Failed\<close>; a failed unit has logged its
  error and has left nothing at its temp path; the batch runs to its end, and every candidate
  reaches its terminal state.
\<close>

lemma unlink_folders:
  "unlink p w = (r, w1) \<Longrightarrow> \<forall>q. folder_at (files w1) q = folder_at (files w) q"
  by (auto simp: unlink_def folder_at_def split: option.splits path_entry.splits if_splits)

lemma writeFile_folders:
  "writeFile p c w = (r, w1) \<Longrightarrow> \<forall>q. folder_at (files w1) q = folder_at (files w) q"
  by (auto simp: writeFile_def folder_at_def split: option.splits path_entry.splits if_splits)

lemma run_engine_folders:
  "run_engine eng cmd w = (r, w1) \<Longrightarrow> \<forall>q. folder_at (files w1) q = folder_at (files w) q"
  by (auto simp: run_engine_def Let_def folder_at_def
      split: engine_result.splits option.splits path_entry.splits if_splits)

lemma optimizeVideo_folders:
  assumes "optimizeVideo eng i out vo w = (r, w1)"
  shows "\<forall>q. folder_at (files w1) q = folder_at (files w) q"
  using assms
  by (auto simp: optimizeVideo_def split: prod.splits sum.splits
      dest!: stat_size_effect run_engine_folders)

lemma processFile_try_folders:
  assumes "processFile_try eng opts f w = (r, w1)"
  shows "\<forall>q. folder_at (files w1) q = folder_at (files w) q"
  using assms
  by (auto simp: processFile_try_def Let_def split: prod.splits sum.splits
      dest!: readFile_effect optimizeVideo_folders unlink_folders writeFile_folders)

lemma processFile_catch_caught:
  assumes "\<not> folder_at (files w) (tempOutputPath f)"
  shows "\<exists>w1. processFile_catch f e w = (Inr (), w1)
     \<and> trace w1 = trace w @ Console_error (basename f) e # (if existsSync (tempOutputPath f) w then [Fs_unlink (tempOutputPath f)] else [])
     \<and> files w1 (tempOutputPath f) = None
     \<and> (\<forall>q. folder_at (files w1) q = folder_at (files w) q)"
  using assms
  by (auto simp: processFile_catch_def Let_def tempOutputPath_def existsSync_def unlink_def
      folder_at_def emit_def split: option.splits path_entry.splits)

lemma processFile_resume_caught:
  assumes "\<not> folder_at (files w) (tempOutputPath f)"
  shows "\<exists>w1 evs t. processFile_resume eng opts f w = (Inr (), w1)
     \<and> trace w1 = trace w @ evs @ [Settled f t]
     \<and> (\<forall>e. t = Failed e \<longrightarrow>
           Console_error (basename f) e \<in> set evs \<and> files w1 (tempOutputPath f) = None)
     \<and> (\<forall>q. folder_at (files w1) q = folder_at (files w) q)"
proof -
  obtain r0 w0 where attempt: "processFile_try eng opts f w = (r0, w0)"
    by (cases "processFile_try eng opts f w")
  from processFile_try_trace [OF attempt] obtain evs0 where evs0: "trace w0 = trace w @ evs0"
    by blast
  have keep: "folder_at (files w0) q = folder_at (files w) q" for q
    using processFile_try_folders [OF attempt] by simp
  show ?thesis
  proof (cases r0)
    case (Inr u)
    with attempt evs0 keep have "processFile_resume eng opts f w = (Inr (), emit (Settled f Done) w0)
      \<and> trace (emit (Settled f Done) w0) = trace w @ evs0 @ [Settled f Done]
      \<and> (\<forall>e. Done = Failed e \<longrightarrow>
           Console_error (basename f) e \<in> set evs0 \<and> files (emit (Settled f Done) w0) (tempOutputPath f) = None)
     \<and> (\<forall>q. folder_at (files (emit (Settled f Done) w0)) q = folder_at (files w) q)"
      by (simp add: processFile_resume_def)
    then show ?thesis by blast
  next
    case (Inl e)
    from assms keep have "\<not> folder_at (files w0) (tempOutputPath f)" by simp
    from processFile_catch_caught [OF this, of e] obtain w1 where
      w1: "processFile_catch f e w0 = (Inr (), w1)"
        "trace w1 = trace w0 @ Console_error (basename f) e # (if existsSync (tempOutputPath f) w0 then [Fs_unlink (tempOutputPath f)] else [])"
        "files w1 (tempOutputPath f) = None"
        "\<forall>q. folder_at (files w1) q = folder_at (files w0) q"
      by blast
    let ?evs = "evs0 @ Console_error (basename f) e # (if existsSync (tempOutputPath f) w0 then [Fs_unlink (tempOutputPath f)] else [])"
    from Inl attempt w1 evs0 keep
    have "processFile_resume eng opts f w = (Inr (), emit (Settled f (Failed e)) w1)
      \<and> trace (emit (Settled f (Failed e)) w1) = trace w @ ?evs @ [Settled f (Failed e)]
      \<and> (\<forall>e'. Failed e = Failed e' \<longrightarrow>
           Console_error (basename f) e' \<in> set ?evs \<and> files (emit (Settled f (Failed e)) w1) (tempOutputPath f) = None)
     \<and> (\<forall>q. folder_at (files (emit (Settled f (Failed e)) w1)) q = folder_at (files w) q)"
      by (simp add: processFile_resume_def)
    then show ?thesis by blast
  qed
qed

lemma await_units_complete:
  "\<forall>f \<in> set fs. \<not> folder_at (files w) (tempOutputPath f) \<Longrightarrow>
     \<exists>w1. await_units eng opts fs w = (Inr (), w1)
       \<and> (\<forall>q. folder_at (files w1) q = folder_at (files w) q)"
proof (induction fs arbitrary: w)
  case Nil
  then show ?case by simp
next
  case (Cons f fs)
  then have "\<not> folder_at (files w) (tempOutputPath f)" by simp
  from processFile_resume_caught [OF this, of eng opts] obtain w0 where
    w0: "processFile_resume eng opts f w = (Inr (), w0)"
      "\<forall>q. folder_at (files w0) q = folder_at (files w) q"
    by blast
  with Cons.prems have "\<forall>g \<in> set fs. \<not> folder_at (files w0) (tempOutputPath g)" by simp
  from Cons.IH [OF this] obtain w1 where
    "await_units eng opts fs w0 = (Inr (), w1)"
    "\<forall>q. folder_at (files w1) q = folder_at (files w0) q"
    by blast
  with w0 show ?case by simp
qed

lemma files_begin_all: "files (foldl (\<lambda>w1 f. processFile_begin f w1) w chunk) = files w"
  by (induction chunk arbitrary: w) (simp_all add: processFile_begin_def)

lemma run_chunks_complete:
  assumes perm: "\<And>chunk. set (completion chunk) = set chunk"
  shows "\<forall>f \<in> set (concat chunks). \<not> folder_at (files w) (tempOutputPath f) \<Longrightarrow>
     \<exists>w1 evs. run_chunks eng opts completion chunks w = (Inr (), w1)
       \<and> trace w1 = trace w @ evs
       \<and> (\<forall>f \<in> set (concat chunks). \<exists>t. Settled f t \<in> set evs)
       \<and> (\<forall>q. folder_at (files w1) q = folder_at (files w) q)"
proof (induction chunks arbitrary: w)
  case Nil
  then show ?case by simp
next
  case (Cons chunk chunks)
  let ?w0 = "foldl (\<lambda>w1 f. processFile_begin f w1) w chunk"
  from Cons.prems perm have "\<forall>f \<in> set (completion chunk). \<not> folder_at (files ?w0) (tempOutputPath f)"
    by (simp add: files_begin_all)
  from await_units_complete [OF this, of eng opts] obtain w1 where
    w1: "await_units eng opts (completion chunk) ?w0 = (Inr (), w1)"
      "\<forall>q. folder_at (files w1) q = folder_at (files w) q"
    by (auto simp: files_begin_all)
  then have first: "promise_all eng opts completion chunk w = (Inr (), w1)"
    by (simp add: promise_all_def)
  from promise_all_trace [OF first] perm obtain evs0 where
    evs0: "trace w1 = trace w @ evs0" "\<forall>f \<in> set chunk. \<exists>t. Settled f t \<in> set evs0"
    by auto
  from Cons.prems w1(2) have "\<forall>f \<in> set (concat chunks). \<not> folder_at (files w1) (tempOutputPath f)"
    by simp
  from Cons.IH [OF this] obtain w2 evs1 where
    w2: "run_chunks eng opts completion chunks w1 = (Inr (), w2)"
      "trace w2 = trace w1 @ evs1"
      "\<forall>f \<in> set (concat chunks). \<exists>t. Settled f t \<in> set evs1"
      "\<forall>q. folder_at (files w2) q = folder_at (files w1) q"
    by blast
  from first w2 evs0 w1(2)
  have "run_chunks eng opts completion (chunk # chunks) w = (Inr (), w2)
       \<and> trace w2 = trace w @ (evs0 @ evs1)
       \<and> (\<forall>f \<in> set (concat (chunk # chunks)). \<exists>t. Settled f t \<in> set (evs0 @ evs1))
       \<and> (\<forall>q. folder_at (files w2) q = folder_at (files w) q)"
    by (simp; blast)
  then show ?case by blast
qed

lemma batch_completes_without_folders:
  assumes c: "0 < concurrency_of opts"
    and perm: "\<And>chunk. mset (completion chunk) = mset chunk"
    and free: "\<forall>f \<in> set videoFiles. \<not> folder_at (files w) (tempOutputPath f)"
  shows "\<exists>w1 evs. closeBundle_chunks eng opts completion videoFiles w = Some (Inr (), w1)
       \<and> trace w1 = trace w @ evs
       \<and> (\<forall>f \<in> set videoFiles. \<exists>t. Settled f t \<in> set evs)"
proof -
  from chunk_loop_partition [OF c, of videoFiles] obtain chunks where
    chunks: "chunk_loop videoFiles (concurrency_of opts) 0 [] = Some chunks"
      "concat chunks = videoFiles"
    by (elim exE conjE)
  have same: "set (completion chunk) = set chunk" for chunk
    using perm [of chunk] by (rule mset_eq_setD)
  from free chunks(2)
  have "\<forall>f \<in> set (concat chunks). \<not> folder_at (files w) (tempOutputPath f)" by simp
  from run_chunks_complete [of completion chunks w eng opts, OF same this] chunks
  show ?thesis by (auto simp: closeBundle_chunks_def)
qed

section \<open>The audio stream\<close>

lemma optimizeVideo_commands:
  assumes "optimizeVideo eng i out vo w = (r, w1)"
  shows "\<exists>evs. trace w1 = trace w @ evs \<and>
           (\<forall>cmd. Ffmpeg_run cmd \<in> set evs \<longrightarrow> cmd = optimizeVideo_command i out vo)"
  using assms
  by (auto simp: optimizeVideo_def split: prod.splits sum.splits
      dest!: stat_size_effect run_engine_trace)

lemma processFile_try_commands:
  assumes "processFile_try eng opts f w = (r, w1)"
  shows "\<exists>evs. trace w1 = trace w @ evs \<and>
           (\<forall>cmd. Ffmpeg_run cmd \<in> set evs \<longrightarrow>
              cmd = optimizeVideo_command f (tempOutputPath f)
                      (getVideoOptions (toLowerCase (extname f)) opts))"
  using assms
  by (auto simp: processFile_try_def Let_def tempOutputPath_def split: prod.splits sum.splits
      dest!: optimizeVideo_commands unlink_trace readFile_effect writeFile_trace)

lemma processFile_catch_commands:
  assumes "processFile_catch f e w = (r, w1)"
  shows "\<exists>evs. trace w1 = trace w @ evs \<and> (\<forall>cmd. Ffmpeg_run cmd \<notin> set evs)"
  using assms
  by (auto simp: processFile_catch_def Let_def split: if_splits dest!: unlink_trace)

lemma processFile_commands:
  assumes "processFile eng opts f w = (r, w1)"
  shows "\<exists>evs. trace w1 = trace w @ evs \<and>
           (\<forall>cmd. Ffmpeg_run cmd \<in> set evs \<longrightarrow>
              cmd = optimizeVideo_command f (tempOutputPath f)
                      (getVideoOptions (toLowerCase (extname f)) opts))"
  using assms
  by (auto simp: processFile_def processFile_resume_def processFile_begin_def
      split: prod.splits sum.splits
      dest!: processFile_try_commands processFile_catch_commands)

text \<open>
  C7, as the claim states it, fails for the two earlier versions, which the claim also names:
  they have no \<open>mute\<close> option and call \<open>noAudio()\<close> on every command. With the options
  \<open>{}\<close> the mute flag resolves to its default \<open>false\<close>, and the first module of
  \<open>src/index.ts\<close> still drops the audio stream of \<open>/dist/a.mp4\<close>.
\<close>

theorem noAudio_earlier_version_counterexample:
  "first_present [override_field (opt_mp4 no_options) fmt_mute, opt_mute no_options] False = False
   \<and> cmd_noAudio (optimizeVideo_command_A ''/dist/a.mp4'' ''/dist/a.mp4.tmp.mp4''
        (getVideoOptions_A ''.mp4'' no_options)) = True"
  by (simp add: optimizeVideo_command_A_def Let_def no_options_def override_field_def)

text \<open>
  C7, amended. In the current version the only command a processing unit hands to the engine
  is the one \<open>optimizeVideo\<close> builds for the candidate, and that command drops the audio
  stream iff the mute flag resolved for the candidate's extension is true; with no \<open>mute\<close>
  option given the flag is false and the audio stream is kept. In the two earlier versions,
  which have no \<open>mute\<close> option, every command drops the audio stream.
\<close>

theorem noAudio_iff_mute:
  "(\<forall>eng opts videoFile w r w1. processFile eng opts videoFile w = (r, w1) \<longrightarrow>
      (\<exists>evs. trace w1 = trace w @ evs \<and>
         (\<forall>cmd. Ffmpeg_run cmd \<in> set evs \<longrightarrow>
            cmd_noAudio cmd = mute (getVideoOptions (toLowerCase (extname videoFile)) opts))))
   \<and> cmd_noAudio (optimizeVideo_command inputPath outputPath (getVideoOptions ext opts))
     = mute (getVideoOptions ext opts)
   \<and> mute (getVideoOptions ext no_options) = False
   \<and> cmd_noAudio (optimizeVideo_command inputPath outputPath (getVideoOptions ext no_options))
     = False
   \<and> cmd_noAudio (optimizeVideo_command_A inputPath outputPath optsA) = True
   \<and> cmd_noAudio (optimizeVideo_command_C inputPath outputPath optsA) = True"
proof -
  have flag: "cmd_noAudio (optimizeVideo_command i out vo) = mute vo" for i out vo
    by (simp add: optimizeVideo_command_def Let_def)
  have run: "\<exists>evs. trace w1 = trace w @ evs \<and>
         (\<forall>cmd. Ffmpeg_run cmd \<in> set evs \<longrightarrow>
            cmd_noAudio cmd = mute (getVideoOptions (toLowerCase (extname videoFile)) opts))"
    if "processFile eng opts videoFile w = (r, w1)" for eng opts videoFile w r w1
  proof -
    from processFile_commands [OF that] obtain evs where
      evs: "trace w1 = trace w @ evs"
      "\<forall>cmd. Ffmpeg_run cmd \<in> set evs \<longrightarrow>
              cmd = optimizeVideo_command videoFile (tempOutputPath videoFile)
                      (getVideoOptions (toLowerCase (extname videoFile)) opts)"
      by (elim exE conjE)
    have "\<forall>cmd. Ffmpeg_run cmd \<in> set evs \<longrightarrow>
            cmd_noAudio cmd = mute (getVideoOptions (toLowerCase (extname videoFile)) opts)"
      using evs(2) flag by metis
    with evs(1) show ?thesis by (intro exI [of _ evs] conjI)
  qed
  have default: "mute (getVideoOptions ext no_options) = False"
    by (simp add: getVideoOptions_def Let_def no_options_def index_options_def opt_chain_def
        nullish_def nullish_or_def)
  have earlier: "cmd_noAudio (optimizeVideo_command_A inputPath outputPath optsA) = True"
    "cmd_noAudio (optimizeVideo_command_C inputPath outputPath optsA) = True"
    by (simp_all add: optimizeVideo_command_A_def optimizeVideo_command_C_def Let_def)
  show ?thesis
  proof (intro conjI allI impI)
    fix eng opts videoFile w r w1
    assume "processFile eng opts videoFile w = (r, w1)"
    then show "\<exists>evs. trace w1 = trace w @ evs \<and>
         (\<forall>cmd. Ffmpeg_run cmd \<in> set evs \<longrightarrow>
            cmd_noAudio cmd = mute (getVideoOptions (toLowerCase (extname videoFile)) opts))"
      by (rule run)
  qed (simp_all add: flag default earlier)
qed

theorem noAudio_iff_mute_witness:
  "Ffmpeg_run (optimizeVideo_command ''/dist/a.mp4'' ''/dist/a.mp4.tmp.mp4''
       (getVideoOptions ''.mp4'' mute_all))
     \<in> set (trace (snd (processFile shrinking_engine mute_all ''/dist/a.mp4''
                           \<lparr>files = dist_files, trace = []\<rparr>)))
   \<and> mute (getVideoOptions (toLowerCase (extname ''/dist/a.mp4'')) mute_all)
   \<and> cmd_noAudio (optimizeVideo_command ''/dist/a.mp4'' ''/dist/a.mp4.tmp.mp4''
       (getVideoOptions ''.mp4'' mute_all))"
proof -
  let ?w = "\<lparr>files = dist_files, trace = []\<rparr>"
  let ?cmd = "optimizeVideo_command ''/dist/a.mp4'' ''/dist/a.mp4.tmp.mp4''
       (getVideoOptions ''.mp4'' mute_all)"
  obtain r w1 where run: "processFile shrinking_engine mute_all ''/dist/a.mp4'' ?w = (r, w1)"
    by (cases "processFile shrinking_engine mute_all ''/dist/a.mp4'' ?w")
  have handed: "Ffmpeg_run ?cmd
      \<in> set (trace (snd (processFile shrinking_engine mute_all ''/dist/a.mp4'' ?w)))"
    by code_simp
  have muted: "mute (getVideoOptions (toLowerCase (extname ''/dist/a.mp4'')) mute_all)"
    by code_simp
  have step: "\<forall>eng opts videoFile w r w1. processFile eng opts videoFile w = (r, w1) \<longrightarrow>
      (\<exists>evs. trace w1 = trace w @ evs \<and>
         (\<forall>cmd. Ffmpeg_run cmd \<in> set evs \<longrightarrow>
            cmd_noAudio cmd = mute (getVideoOptions (toLowerCase (extname videoFile)) opts)))"
    by (rule conjunct1 [OF noAudio_iff_mute [of "''x''" "''y''" "''.mp4''" no_options
            "\<lparr>quality = 18, preset = ''medium''\<rparr>"]])
  from step run obtain evs where evs: "trace w1 = trace ?w @ evs"
    "\<forall>cmd. Ffmpeg_run cmd \<in> set evs \<longrightarrow>
       cmd_noAudio cmd = mute (getVideoOptions (toLowerCase (extname ''/dist/a.mp4'')) mute_all)"
    by blast
  from handed run evs(1) have "Ffmpeg_run ?cmd \<in> set evs" by simp
  with evs(2) muted have "cmd_noAudio ?cmd" by blast
  with handed muted show ?thesis by (intro conjI)
qed

end
